theory Spec2Isabelle
  imports Main
begin

section \<open>Python strings and lists, as far as sso\_aws\_helper.py uses them\<close>

text \<open>
  A Python \<open>str\<close> is modelled as a \<open>string\<close> (a list of characters). Isabelle's
  \<open>char\<close> has 256 values, so the model covers the texts whose code points are below 256;
  \<open>isspace\<close> lists the characters below 256 for which Python's \<open>str.isspace\<close> holds.
\<close>

definition newline :: char where
  "newline = CHR 0x0A"

definition isspace :: "char \<Rightarrow> bool" where
  "isspace c \<longleftrightarrow> c \<in> set [CHR 0x09, CHR 0x0A, CHR 0x0B, CHR 0x0C, CHR 0x0D,
      CHR 0x1C, CHR 0x1D, CHR 0x1E, CHR 0x1F, CHR 0x20, CHR 0x85, CHR 0xA0]"

text \<open>\<open>s.strip()\<close>: whitespace removed at both ends.\<close>

definition strip :: "string \<Rightarrow> string" where
  "strip s = rev (dropWhile isspace (rev (dropWhile isspace s)))"

text \<open>\<open>s.rstrip('/')\<close>: every trailing occurrence of the one character removed.\<close>

definition rstrip_char :: "char \<Rightarrow> string \<Rightarrow> string" where
  "rstrip_char c s = rev (dropWhile (\<lambda>x. x = c) (rev s))"

text \<open>\<open>s.startswith(p)\<close> and \<open>s.endswith(p)\<close>.\<close>

definition startswith :: "string \<Rightarrow> string \<Rightarrow> bool" where
  "startswith s p \<longleftrightarrow> take (length p) s = p"

definition endswith :: "string \<Rightarrow> string \<Rightarrow> bool" where
  "endswith s p \<longleftrightarrow> length p \<le> length s \<and> drop (length s - length p) s = p"

text \<open>\<open>sub in s\<close> on strings: \<open>sub\<close> starts at some position of \<open>s\<close>.\<close>

fun contains :: "string \<Rightarrow> string \<Rightarrow> bool" where
  "contains [] sub = (sub = [])"
| "contains (c # cs) sub = (startswith (c # cs) sub \<or> contains cs sub)"

text \<open>
  \<open>s.split(sep)\<close> for a separator of one character: the pieces between the separators,
  left to right; \<open>cur\<close> is the piece being read. The result is never empty
  (\<open>''.split('-')\<close> is \<open>['']\<close>).
\<close>

fun split_acc :: "char \<Rightarrow> string \<Rightarrow> string \<Rightarrow> string list" where
  "split_acc sep cur [] = [cur]"
| "split_acc sep cur (c # cs) =
     (if c = sep then cur # split_acc sep [] cs else split_acc sep (cur @ [c]) cs)"

definition split :: "char \<Rightarrow> string \<Rightarrow> string list" where
  "split sep s = split_acc sep [] s"

text \<open>
  \<open>s.split(sep, maxsplit)\<close>: at most \<open>maxsplit\<close> cuts, the rest of the string is the
  last piece, separators included.
\<close>

fun split_max_acc :: "char \<Rightarrow> nat \<Rightarrow> string \<Rightarrow> string \<Rightarrow> string list" where
  "split_max_acc sep n cur [] = [cur]"
| "split_max_acc sep n cur (c # cs) =
     (if c = sep \<and> 0 < n then cur # split_max_acc sep (n - 1) [] cs
      else split_max_acc sep n (cur @ [c]) cs)"

definition split_max :: "char \<Rightarrow> nat \<Rightarrow> string \<Rightarrow> string list" where
  "split_max sep n s = split_max_acc sep n [] s"

text \<open>\<open>sep.join(pieces)\<close> for a separator of one character.\<close>

fun join :: "char \<Rightarrow> string list \<Rightarrow> string" where
  "join sep [] = []"
| "join sep [x] = x"
| "join sep (x # y # ys) = x @ sep # join sep (y # ys)"

text \<open>The exceptions of the modelled paths.\<close>

datatype error =
    IndexError            \<comment> \<open>a list index out of range\<close>
  | ValueError            \<comment> \<open>configparser: invalid interpolation syntax in a value\<close>
  | FileNotFoundError     \<comment> \<open>raised by \<open>get_latest_access_token\<close>\<close>
  | OtherError string     \<comment> \<open>any other exception, by class name\<close>
  | MalformedProfileNameError
      \<comment> \<open>the error the specification names for a bad profile name; no \<open>raise\<close> of
          the source produces it\<close>

text \<open>\<open>xs[i]\<close> for \<open>i \<ge> 0\<close>: IndexError when out of range.\<close>

definition index :: "'a list \<Rightarrow> nat \<Rightarrow> error + 'a" where
  "index xs i = (if i < length xs then Inr (xs ! i) else Inl IndexError)"

section \<open>Profile names\<close>

text \<open>
  \<open>setup_profiles\<close>, line 276: \<open>profile_name = f"sso-{account_id}-{role_name}"\<close>.
\<close>

definition profile_name_of :: "string \<Rightarrow> string \<Rightarrow> string" where
  "profile_name_of account_id role_name = ''sso-'' @ account_id @ ''-'' @ role_name"

text \<open>
  \<open>_update_config_file\<close>, lines 149-150:
  \<^verbatim>\<open>account_id = profile_name.split('-')[1]\<close> and
  \<^verbatim>\<open>role_name = profile_name.split('-', 2)[2]\<close>, in this order; either index raises
  IndexError when the list is too short.
\<close>

definition parse_profile_name :: "string \<Rightarrow> error + (string \<times> string)" where
  "parse_profile_name profile_name =
     (case index (split CHR ''-'' profile_name) 1 of
        Inl e \<Rightarrow> Inl e
      | Inr account_id \<Rightarrow>
          (case index (split_max CHR ''-'' 2 profile_name) 2 of
             Inl e \<Rightarrow> Inl e
           | Inr role_name \<Rightarrow> Inr (account_id, role_name)))"

section \<open>The SSO start URL\<close>

text \<open>
  \<open>_update_config_file\<close>, lines 153-155:
  \<^verbatim>\<open>if not sso_start_url.endswith('/#'): sso_start_url = sso_start_url.rstrip('/') + '/#'\<close>.
\<close>

definition fix_sso_start_url :: "string \<Rightarrow> string" where
  "fix_sso_start_url sso_start_url =
     (if \<not> endswith sso_start_url ''/#'' then rstrip_char CHR ''/'' sso_start_url @ ''/#''
      else sso_start_url)"

section \<open>The AWS CLI config file\<close>

text \<open>
  The settings of \<open>AWSConfig\<close> that the modelled paths read, each as the string its
  property returns.
\<close>

record aws_config =
  sso_profile :: string
  sso_start_url :: string
  sso_region :: string
  default_region :: string
  output_format :: string

text \<open>
  The state of a \<open>configparser.ConfigParser\<close>: the options of the \<open>DEFAULT\<close> section and
  the other sections by name, both in insertion order (Python dicts). The config file
  is modelled by the document that \<open>config.read\<close> gets from it and \<open>config.write\<close> puts
  into it; a file that does not exist is \<open>None\<close>. The document read is taken to be
  the document last written: what \<open>config.write\<close> followed by \<open>config.read\<close> changes
  (white space around a value is stripped, a line break inside a name or a value is not
  read back as written) is outside the model.
\<close>

type_synonym options = "(string \<times> string) list"

record config_parser =
  defaults :: options
  sections :: "(string \<times> options) list"

definition ConfigParser :: config_parser where
  "ConfigParser = \<lparr>defaults = [], sections = []\<rparr>"

text \<open>\<open>d[k] = v\<close> on a dict: the value of an existing key is replaced in place, a new key
  goes to the end.\<close>

fun dict_set :: "'k \<Rightarrow> 'v \<Rightarrow> ('k \<times> 'v) list \<Rightarrow> ('k \<times> 'v) list" where
  "dict_set k v [] = [(k, v)]"
| "dict_set k v ((k', v') # d) = (if k' = k then (k, v) # d else (k', v') # dict_set k v d)"

text \<open>
  \<open>BasicInterpolation.before_set\<close>, which \<open>ConfigParser.set\<close> runs on every non-empty
  value: \<^verbatim>\<open>tmp = value.replace('%%', '')\<close>, then every match of the pattern
  \<^verbatim>\<open>%\(([^)]+)\)s\<close> is removed from \<open>tmp\<close>, and a \<open>%\<close> that is left raises ValueError.
\<close>

fun replace_percents :: "string \<Rightarrow> string" where
  "replace_percents (a # b # cs) =
     (if a = CHR ''%'' \<and> b = CHR ''%'' then replace_percents cs
      else a # replace_percents (b # cs))"
| "replace_percents cs = cs"

text \<open>The length of the match of \<^verbatim>\<open>%\(([^)]+)\)s\<close> at the start of a string, if there is one.\<close>

definition keycre_match :: "string \<Rightarrow> nat option" where
  "keycre_match s =
     (case s of
        a # b # rest \<Rightarrow>
          (let name = takeWhile (\<lambda>c. c \<noteq> CHR '')'') rest;
               after = drop (length name) rest
           in if a = CHR ''%'' \<and> b = CHR ''('' \<and> name \<noteq> [] \<and> startswith after '')s''
              then Some (length name + 4) else None)
      | _ \<Rightarrow> None)"

text \<open>\<open>_KEYCRE.sub('', s)\<close>: the matches are removed from left to right; the first
  argument counts the characters of a match still to be skipped.\<close>

fun keycre_sub :: "nat \<Rightarrow> string \<Rightarrow> string" where
  "keycre_sub n [] = []"
| "keycre_sub (Suc n) (c # cs) = keycre_sub n cs"
| "keycre_sub 0 (c # cs) =
     (case keycre_match (c # cs) of
        Some m \<Rightarrow> keycre_sub (m - 1) cs
      | None \<Rightarrow> c # keycre_sub 0 cs)"

definition before_set :: "string \<Rightarrow> error + string" where
  "before_set v =
     (if CHR ''%'' \<in> set (keycre_sub 0 (replace_percents v)) then Inl ValueError else Inr v)"

text \<open>
  \<open>config[key] = value\<close> (\<open>RawConfigParser.__setitem__\<close>) for a dict \<open>value\<close> whose keys
  are distinct and in lower case, as the literals of the source are: the section is
  emptied if it exists and created at the end otherwise, then every option is set, which
  validates each non-empty value. A ValueError leaves the parser half updated; the
  callers drop the parser then, so the model returns the error alone.
\<close>

definition setitem :: "string \<Rightarrow> options \<Rightarrow> config_parser \<Rightarrow> error + config_parser" where
  "setitem key v config =
     (if list_ex (\<lambda>(k, x). x \<noteq> [] \<and> before_set x = Inl ValueError) v then Inl ValueError
      else if key = ''DEFAULT'' then Inr (config\<lparr>defaults := v\<rparr>)
      else Inr (config\<lparr>sections := dict_set key v (sections config)\<rparr>))"

text \<open>The dict literal of lines 158-165 and again of lines 168-175.\<close>

definition sso_options :: "aws_config \<Rightarrow> string \<Rightarrow> string \<Rightarrow> string \<Rightarrow> options" where
  "sso_options aws_config url account_id role_name =
     [(''sso_start_url'', url),
      (''sso_region'', sso_region aws_config),
      (''sso_account_id'', account_id),
      (''sso_role_name'', role_name),
      (''region'', default_region aws_config),
      (''output'', output_format aws_config)]"

text \<open>
  Lines 142-146, as also lines 213-217: a new parser, which reads the config file if it
  exists.
\<close>

definition read_config_file :: "config_parser option \<Rightarrow> config_parser" where
  "read_config_file config_file =
     (case config_file of None \<Rightarrow> ConfigParser | Some d \<Rightarrow> d)"

text \<open>
  \<open>AWSProfileManager._update_config_file\<close> (lines 140-180). The result is the document
  written to the config file, or the exception raised, in which case the file has not
  been opened for writing.
\<close>

definition update_config_file ::
  "aws_config \<Rightarrow> string \<Rightarrow> config_parser option \<Rightarrow> error + config_parser" where
  "update_config_file aws_config profile_name config_file =
     (let config = read_config_file config_file in
      case parse_profile_name profile_name of
        Inl e \<Rightarrow> Inl e
      | Inr (account_id, role_name) \<Rightarrow>
          (let url = fix_sso_start_url (sso_start_url aws_config) in
           case setitem ''default'' (sso_options aws_config url account_id role_name) config of
             Inl e \<Rightarrow> Inl e
           | Inr config1 \<Rightarrow>
               setitem (''profile '' @ profile_name)
                 (sso_options aws_config url account_id role_name) config1))"

text \<open>\<open>AWSProfileManager.update_profile\<close> (lines 134-138): the credentials, the account
  id and the role name it is given are not used.\<close>

definition update_profile ::
  "aws_config \<Rightarrow> string \<Rightarrow> string \<Rightarrow> string \<Rightarrow> config_parser option \<Rightarrow> error + config_parser" where
  "update_profile aws_config account_id role_name profile_name config_file =
     update_config_file aws_config profile_name config_file"

section \<open>Profiles for all roles\<close>

text \<open>
  The loop of \<open>AWSSSOManager.setup_profiles\<close> (lines 273-281): the name is appended
  before the profile is updated, and an exception of the update is caught and printed.
\<close>

fun setup_profiles_loop ::
  "aws_config \<Rightarrow> (string \<times> string) list \<Rightarrow> string list \<Rightarrow> config_parser option \<Rightarrow>
   string list \<times> config_parser option" where
  "setup_profiles_loop aws_config [] profile_names config_file = (profile_names, config_file)"
| "setup_profiles_loop aws_config ((account_id, role_name) # available_roles)
       profile_names config_file =
     (let profile_name = profile_name_of account_id role_name;
          profile_names = profile_names @ [profile_name]
      in case update_profile aws_config account_id role_name profile_name config_file of
           Inl e \<Rightarrow> setup_profiles_loop aws_config available_roles profile_names config_file
         | Inr d \<Rightarrow> setup_profiles_loop aws_config available_roles profile_names (Some d))"

text \<open>
  \<open>AWSSSOManager.setup_profiles\<close> (lines 266-283). Its first two statements are outside
  the \<open>try\<close>: \<open>access_token\<close> is the outcome of \<open>get_latest_access_token()\<close> and
  \<open>sso\<close> the outcome of \<open>boto3.client(...)\<close>; an exception of either leaves the method.
  The result is the returned list together with the config file afterwards.
\<close>

definition setup_profiles ::
  "aws_config \<Rightarrow> error + string \<Rightarrow> error + unit \<Rightarrow> (string \<times> string) list \<Rightarrow>
   config_parser option \<Rightarrow> error + (string list \<times> config_parser option)" where
  "setup_profiles aws_config access_token sso available_roles config_file =
     (case access_token of
        Inl e \<Rightarrow> Inl e
      | Inr token \<Rightarrow>
          (case sso of
             Inl e \<Rightarrow> Inl e
           | Inr client \<Rightarrow> Inr (setup_profiles_loop aws_config available_roles [] config_file)))"

section \<open>Shell profiles\<close>

text \<open>
  A profile file is modelled by its content as Python's text-mode \<open>read\<close> returns it and
  \<open>write\<close> takes it; \<open>None\<close> is a file that does not exist. The \<open>except Exception\<close>
  branches of the three set-up methods answer input/output failures, which the model
  does not have.
\<close>

text \<open>Lines 356-359 and 420-423: the content is empty unless the file exists and is
  read.\<close>

definition read_content :: "string option \<Rightarrow> string" where
  "read_content profile_file = (case profile_file of None \<Rightarrow> [] | Some text \<Rightarrow> text)"

text \<open>\<^verbatim>\<open>lines = content.split('\n') if content else []\<close> (lines 362 and 426).\<close>

definition content_lines :: "string \<Rightarrow> string list" where
  "content_lines content = (if content \<noteq> [] then split newline content else [])"

subsection \<open>Bash\<close>

definition aws_export :: "string \<Rightarrow> string" where
  "aws_export default_profile = ''export AWS_DEFAULT_PROFILE='' @ default_profile"

definition clear_aws_alias :: string where
  "clear_aws_alias =
     ''alias clear_aws='' @ [CHR 0x27] @
     ''unset AWS_ACCESS_KEY_ID AWS_SECRET_ACCESS_KEY AWS_SESSION_TOKEN AWS_DEFAULT_PROFILE'' @
     [CHR 0x27]"

text \<open>The test of line 374 on a line.\<close>

definition is_export_line :: "string \<Rightarrow> bool" where
  "is_export_line line \<longleftrightarrow> startswith (strip line) ''export AWS_DEFAULT_PROFILE=''"

text \<open>
  The loop of \<open>_setup_bash_profile\<close> (lines 367-381) over the lines still to be read,
  with the values of \<open>new_lines\<close>, \<open>aws_profile_added\<close> and \<open>blank_line_count\<close>; it returns
  the first two.
\<close>

fun bash_loop ::
  "string \<Rightarrow> string list \<Rightarrow> string list \<Rightarrow> bool \<Rightarrow> nat \<Rightarrow> string list \<times> bool" where
  "bash_loop default_profile [] new_lines aws_profile_added blank_line_count =
     (new_lines, aws_profile_added)"
| "bash_loop default_profile (line # lines) new_lines aws_profile_added blank_line_count =
     (if strip line = [] then
        (if blank_line_count + 1 \<le> 1
         then bash_loop default_profile lines (new_lines @ [line]) aws_profile_added
                (blank_line_count + 1)
         else bash_loop default_profile lines new_lines aws_profile_added (blank_line_count + 1))
      else if is_export_line line then
        (if \<not> aws_profile_added
         then bash_loop default_profile lines (new_lines @ [aws_export default_profile]) True 0
         else bash_loop default_profile lines new_lines aws_profile_added 0)
      else bash_loop default_profile lines (new_lines @ [line]) aws_profile_added 0)"

text \<open>Lines 386-387 and 460-461: a blank line is put after a last line that is not blank.\<close>

definition blank_separated :: "string list \<Rightarrow> string list" where
  "blank_separated new_lines =
     (if new_lines \<noteq> [] \<and> strip (last new_lines) \<noteq> [] then new_lines @ [[]] else new_lines)"

text \<open>Lines 362-393 of \<open>_setup_bash_profile\<close>: from \<open>lines\<close> to the final \<open>new_lines\<close>.\<close>

definition bash_new_lines :: "string \<Rightarrow> string list \<Rightarrow> string list" where
  "bash_new_lines default_profile lines =
     (let (new_lines, aws_profile_added) =
            bash_loop default_profile lines [] False 0;
          new_lines =
            (if \<not> aws_profile_added
             then blank_separated new_lines @ [aws_export default_profile]
             else new_lines);
          content_str = join newline new_lines
      in if \<not> contains content_str clear_aws_alias then new_lines @ [clear_aws_alias]
         else new_lines)"

text \<open>\<open>_setup_bash_profile\<close> (lines 349-401): the text written to \<open>~/.bashrc\<close>.\<close>

definition setup_bash_profile :: "string \<Rightarrow> string option \<Rightarrow> string" where
  "setup_bash_profile default_profile bashrc_file =
     (let content = read_content bashrc_file
      in join newline (bash_new_lines default_profile (content_lines content)))"

subsection \<open>PowerShell\<close>

definition aws_env :: "string \<Rightarrow> string" where
  "aws_env default_profile =
     ''$env:AWS_DEFAULT_PROFILE = '' @ [CHR 0x27] @ default_profile @ [CHR 0x27]"

text \<open>The literal of lines 414-418, already split at its line ends.\<close>

definition clear_aws_function :: "string list" where
  "clear_aws_function =
     [''function Clear-AWS {'',
      ''    Remove-Item Env:AWS_ACCESS_KEY_ID,Env:AWS_SECRET_ACCESS_KEY,Env:AWS_SESSION_TOKEN -ErrorAction SilentlyContinue'',
      ''    $env:AWS_DEFAULT_PROFILE = 'default'' @ [CHR 0x27],
      ''    Write-Host '' @ [CHR 0x22] @
        ''Cleared AWS environment variables and set default profile'' @ [CHR 0x22],
      ''}'']"

text \<open>The tests of lines 439 and 445 on a line.\<close>

definition is_env_line :: "string \<Rightarrow> bool" where
  "is_env_line line \<longleftrightarrow> contains line ''$env:AWS_DEFAULT_PROFILE''"

definition is_function_line :: "string \<Rightarrow> bool" where
  "is_function_line line \<longleftrightarrow> contains line ''function Clear-AWS''"

text \<open>
  The loop of \<open>_setup_powershell_profile\<close> (lines 432-449), with the values of
  \<open>new_lines\<close>, \<open>aws_profile_added\<close>, \<open>clear_aws_added\<close> and \<open>blank_line_count\<close>; it
  returns the first three.
\<close>

fun powershell_loop ::
  "string \<Rightarrow> string list \<Rightarrow> string list \<Rightarrow> bool \<Rightarrow> bool \<Rightarrow> nat \<Rightarrow>
   string list \<times> bool \<times> bool" where
  "powershell_loop default_profile [] new_lines aws_profile_added clear_aws_added blank_line_count =
     (new_lines, aws_profile_added, clear_aws_added)"
| "powershell_loop default_profile (line # lines) new_lines aws_profile_added clear_aws_added
       blank_line_count =
     (if strip line = [] then
        (if blank_line_count + 1 \<le> 1
         then powershell_loop default_profile lines (new_lines @ [line]) aws_profile_added
                clear_aws_added (blank_line_count + 1)
         else powershell_loop default_profile lines new_lines aws_profile_added clear_aws_added
                (blank_line_count + 1))
      else if is_env_line line then
        (if \<not> aws_profile_added
         then powershell_loop default_profile lines (new_lines @ [aws_env default_profile]) True clear_aws_added 0
         else powershell_loop default_profile lines new_lines aws_profile_added clear_aws_added 0)
      else if is_function_line line then
        powershell_loop default_profile lines (new_lines @ [line]) aws_profile_added True 0
      else powershell_loop default_profile lines (new_lines @ [line]) aws_profile_added
             clear_aws_added 0)"

text \<open>Lines 426-462 of \<open>_setup_powershell_profile\<close>: from \<open>lines\<close> to the final
  \<open>new_lines\<close>.\<close>

definition powershell_new_lines :: "string \<Rightarrow> string list \<Rightarrow> string list" where
  "powershell_new_lines default_profile lines =
     (let (new_lines, aws_profile_added, clear_aws_added) =
            powershell_loop default_profile lines [] False False 0;
          new_lines =
            (if \<not> aws_profile_added
             then blank_separated new_lines @ [aws_env default_profile]
             else new_lines)
      in if \<not> clear_aws_added then blank_separated new_lines @ clear_aws_function
         else new_lines)"

text \<open>\<open>_setup_powershell_profile\<close> (lines 403-470): the text written to the profile
  script.\<close>

definition setup_powershell_profile :: "string \<Rightarrow> string option \<Rightarrow> string" where
  "setup_powershell_profile default_profile ps_profile_file =
     (let content = read_content ps_profile_file
      in join newline (powershell_new_lines default_profile (content_lines content)))"

subsection \<open>CMD and the three together\<close>

text \<open>
  The files and the store that \<open>setup_global_profile\<close> writes: the two profile files
  and the values under the registry key \<open>HKEY_CURRENT_USER\Environment\<close>, which is
  \<open>None\<close> where \<open>import winreg\<close> fails (any system but Windows).
\<close>

record shell_profiles =
  bashrc :: "string option"
  ps_profile :: "string option"
  environment_key :: "(string \<rightharpoonup> string) option"

text \<open>\<open>_setup_cmd_profile\<close> (lines 472-485); the ImportError is caught and printed.\<close>

definition setup_cmd_profile ::
  "string \<Rightarrow> (string \<rightharpoonup> string) option \<Rightarrow> (string \<rightharpoonup> string) option" where
  "setup_cmd_profile default_profile key =
     (case key of
        None \<Rightarrow> None
      | Some vals \<Rightarrow> Some (vals(''AWS_DEFAULT_PROFILE'' \<mapsto> default_profile)))"

text \<open>\<open>setup_global_profile\<close> (lines 331-347).\<close>

definition setup_global_profile :: "string list \<Rightarrow> shell_profiles \<Rightarrow> shell_profiles" where
  "setup_global_profile profile_names sh =
     (if profile_names = [] then sh
      else
        (let default_profile = ''default'';
             sh = sh\<lparr>bashrc :=
                     Some (setup_bash_profile default_profile (bashrc sh))\<rparr>;
             sh = sh\<lparr>ps_profile :=
                     Some (setup_powershell_profile default_profile (ps_profile sh))\<rparr>
         in sh\<lparr>environment_key := setup_cmd_profile default_profile (environment_key sh)\<rparr>))"

section \<open>Properties of the profile names\<close>

lemma split_acc_cut:
  "sep \<notin> set a \<Longrightarrow> split_acc sep cur (a @ sep # rest) = (cur @ a) # split_acc sep [] rest"
  by (induction a arbitrary: cur) auto

lemma split_max_acc_zero: "split_max_acc sep 0 cur s = [cur @ s]"
  by (induction s arbitrary: cur) auto

lemma split_max_acc_cut:
  "sep \<notin> set a \<Longrightarrow>
   split_max_acc sep (Suc n) cur (a @ sep # rest) = (cur @ a) # split_max_acc sep n [] rest"
  by (induction a arbitrary: cur) auto

lemma length_split_acc: "length (split_acc sep cur s) = Suc (count_list s sep)"
  by (induction s arbitrary: cur) auto

lemma length_split_max_acc:
  "length (split_max_acc sep n cur s) = Suc (min n (count_list s sep))"
  by (induction s arbitrary: cur n) auto

lemma split_profile_name:
  assumes "CHR ''-'' \<notin> set account_id"
  shows "split CHR ''-'' (profile_name_of account_id role_name) =
         ''sso'' # account_id # split CHR ''-'' role_name"
proof -
  have "split_acc CHR ''-'' [] (''sso'' @ CHR ''-'' # (account_id @ CHR ''-'' # role_name)) =
        ([] @ ''sso'') # split_acc CHR ''-'' [] (account_id @ CHR ''-'' # role_name)"
    by (rule split_acc_cut) simp
  also have "split_acc CHR ''-'' [] (account_id @ CHR ''-'' # role_name) =
        ([] @ account_id) # split_acc CHR ''-'' [] role_name"
    using assms by (rule split_acc_cut)
  finally show ?thesis by (simp add: split_def profile_name_of_def)
qed

lemma split_max_profile_name:
  assumes "CHR ''-'' \<notin> set account_id"
  shows "split_max CHR ''-'' 2 (profile_name_of account_id role_name) =
         [''sso'', account_id, role_name]"
proof -
  have "split_max_acc CHR ''-'' (Suc (Suc 0)) []
          (''sso'' @ CHR ''-'' # (account_id @ CHR ''-'' # role_name)) =
        ([] @ ''sso'') # split_max_acc CHR ''-'' (Suc 0) [] (account_id @ CHR ''-'' # role_name)"
    by (rule split_max_acc_cut) simp
  also have "split_max_acc CHR ''-'' (Suc 0) [] (account_id @ CHR ''-'' # role_name) =
        ([] @ account_id) # split_max_acc CHR ''-'' 0 [] role_name"
    using assms by (rule split_max_acc_cut)
  finally show ?thesis
    by (simp add: split_max_def profile_name_of_def split_max_acc_zero numeral_2_eq_2)
qed

lemma parse_profile_name_of:
  assumes "CHR ''-'' \<notin> set account_id"
  shows "parse_profile_name (profile_name_of account_id role_name) = Inr (account_id, role_name)"
  using assms
  by (simp add: parse_profile_name_def split_profile_name split_max_profile_name index_def)

text \<open>
  Claim C2. For an account id without \<open>-\<close>, parsing the profile name
  \<open>sso-{accountId}-{roleName}\<close> gives back the account id and the role name, whatever
  the role name is, so also when it contains \<open>-\<close>.
\<close>

theorem parse_format_roundtrip:
  assumes "CHR ''-'' \<notin> set account_id"
  shows "parse_profile_name (profile_name_of account_id role_name) = Inr (account_id, role_name)"
  using assms by (rule parse_profile_name_of)

theorem parse_format_roundtrip_witness:
  "CHR ''-'' \<notin> set ''111111111111'' \<and>
   profile_name_of ''111111111111'' ''Power-User-Access'' =
     ''sso-111111111111-Power-User-Access'' \<and>
   parse_profile_name (profile_name_of ''111111111111'' ''Power-User-Access'') =
     Inr (''111111111111'', ''Power-User-Access'')"
  using parse_format_roundtrip [of "''111111111111''" "''Power-User-Access''"]
  by (simp add: profile_name_of_def)

text \<open>
  Claim C6, as the code has it. A profile name with fewer than two \<open>-\<close> makes the parse
  fail with Python's IndexError: with no \<open>-\<close> at \<open>split('-')[1]\<close>, with one at
  \<open>split('-', 2)[2]\<close>.
\<close>

theorem parse_too_few_separators:
  assumes "count_list profile_name CHR ''-'' < 2"
  shows "parse_profile_name profile_name = Inl IndexError"
proof (cases "count_list profile_name CHR ''-'' = 0")
  case True
  then have "length (split CHR ''-'' profile_name) = 1"
    by (simp add: split_def length_split_acc)
  then show ?thesis
    by (simp add: parse_profile_name_def index_def)
next
  case False
  with assms have "count_list profile_name CHR ''-'' = 1"
    by simp
  then have "length (split_max CHR ''-'' 2 profile_name) = 2"
    by (simp add: split_max_def length_split_max_acc)
  then show ?thesis
    by (simp add: parse_profile_name_def index_def split: sum.splits)
qed

theorem parse_too_few_separators_witness:
  "count_list ''sso-111111111111'' CHR ''-'' < 2 \<and>
   parse_profile_name ''sso-111111111111'' = Inl IndexError"
  using parse_too_few_separators [of "''sso-111111111111''"] by simp

text \<open>
  Claim C6, as the specification states it, fails: the error of the name
  \<open>sso-111111111111\<close>, which has one separator, is not MalformedProfileNameError.
\<close>

theorem parse_error_counterexample:
  "parse_profile_name ''sso-111111111111'' \<noteq> Inl MalformedProfileNameError"
  by (simp add: parse_profile_name_def index_def split_def split_max_def)

section \<open>Properties of the start URL\<close>

lemma endswith_append: "endswith (s @ p) p"
  by (simp add: endswith_def)

lemma endswith_fix_sso_start_url: "endswith (fix_sso_start_url u) ''/#''"
  unfolding fix_sso_start_url_def
  using endswith_append [of "rstrip_char CHR ''/'' u" "''/#''"] by simp

text \<open>
  Claim C5. The fixed-up SSO start URL always ends in \<open>/#\<close>, and fixing it up a second
  time changes nothing.
\<close>

theorem fix_sso_start_url_idempotent:
  "endswith (fix_sso_start_url u) ''/#'' \<and>
   fix_sso_start_url (fix_sso_start_url u) = fix_sso_start_url u"
  using endswith_fix_sso_start_url [of u] by (simp add: fix_sso_start_url_def)

section \<open>Properties of the config file update\<close>

lemma dict_set_same: "map_of d k = Some v \<Longrightarrow> dict_set k v d = d"
  by (induction d) (auto split: if_splits)

lemma map_of_dict_set: "map_of (dict_set k v d) = (map_of d)(k \<mapsto> v)"
  by (induction d) (auto simp: fun_eq_iff)

lemma keys_dict_set:
  "map fst (dict_set k v d) = (if k \<in> set (map fst d) then map fst d else map fst d @ [k])"
  by (induction d) force+

lemma distinct_dict_set: "distinct (map fst d) \<Longrightarrow> distinct (map fst (dict_set k v d))"
  by (simp add: keys_dict_set)

lemma filter_key_absent: "k \<notin> fst ` set d \<Longrightarrow> filter (\<lambda>p. fst p = k) d = []"
  by (induction d) auto

lemma filter_key_dict_set:
  "distinct (map fst d) \<Longrightarrow> filter (\<lambda>p. fst p = k) (dict_set k v d) = [(k, v)]"
  by (induction d) (auto simp: filter_key_absent)

lemma filter_dict_set_other:
  "\<not> P (k, v) \<Longrightarrow> (\<And>x. (k, x) \<in> set d \<Longrightarrow> \<not> P (k, x)) \<Longrightarrow>
   filter P (dict_set k v d) = filter P d"
  by (induction d) auto

lemma setitem_Inr:
  assumes "setitem key v config = Inr config'" and "key \<noteq> ''DEFAULT''"
  shows "config' = config\<lparr>sections := dict_set key v (sections config)\<rparr>"
  using assms by (auto simp: setitem_def split: if_splits)

lemma setitem_valid_only:
  assumes "setitem key v config = Inr config'" and "key' \<noteq> ''DEFAULT''"
  shows "setitem key' v c = Inr (c\<lparr>sections := dict_set key' v (sections c)\<rparr>)"
  using assms by (auto simp: setitem_def split: if_splits)

lemma profile_key_neq: "''profile '' @ n \<noteq> ''DEFAULT''" "''profile '' @ n \<noteq> ''default''"
  by simp_all

lemma update_config_file_Inr:
  assumes "update_config_file aws_config profile_name config_file = Inr d"
  obtains account_id role_name where
    "parse_profile_name profile_name = Inr (account_id, role_name)"
    "d = (read_config_file config_file)\<lparr>sections :=
           dict_set (''profile '' @ profile_name)
             (sso_options aws_config (fix_sso_start_url (sso_start_url aws_config))
                account_id role_name)
             (dict_set ''default''
                (sso_options aws_config (fix_sso_start_url (sso_start_url aws_config))
                   account_id role_name)
                (sections (read_config_file config_file)))\<rparr>"
    "\<And>c key. key \<noteq> ''DEFAULT'' \<Longrightarrow>
       setitem key (sso_options aws_config (fix_sso_start_url (sso_start_url aws_config))
                account_id role_name) c =
       Inr (c\<lparr>sections := dict_set key (sso_options aws_config
              (fix_sso_start_url (sso_start_url aws_config)) account_id role_name) (sections c)\<rparr>)"
proof -
  from assms obtain a r where p: "parse_profile_name profile_name = Inr (a, r)"
    by (auto simp: update_config_file_def split: sum.splits)
  let ?o = "sso_options aws_config (fix_sso_start_url (sso_start_url aws_config)) a r"
  from assms p obtain c1 where
    s1: "setitem ''default'' ?o (read_config_file config_file) = Inr c1" and
    s2: "setitem (''profile '' @ profile_name) ?o c1 = Inr d"
    by (auto simp: update_config_file_def Let_def split: sum.splits)
  have c1: "c1 = (read_config_file config_file)\<lparr>sections :=
      dict_set ''default'' ?o (sections (read_config_file config_file))\<rparr>"
    using setitem_Inr [OF s1] by simp
  have d: "d = c1\<lparr>sections := dict_set (''profile '' @ profile_name) ?o (sections c1)\<rparr>"
    using setitem_Inr [OF s2] by simp
  show thesis
  proof (rule that [OF p])
    show "d = (read_config_file config_file)\<lparr>sections :=
           dict_set (''profile '' @ profile_name) ?o
             (dict_set ''default'' ?o (sections (read_config_file config_file)))\<rparr>"
      using c1 d by simp
    show "\<And>c key. key \<noteq> ''DEFAULT'' \<Longrightarrow>
       setitem key ?o c = Inr (c\<lparr>sections := dict_set key ?o (sections c)\<rparr>)"
      using setitem_valid_only [OF s1] by simp
  qed
qed

text \<open>
  Claim C4. When \<open>_update_config_file\<close> writes the config file, the document it writes
  has exactly one section \<open>default\<close> and exactly one section \<open>profile {name}\<close>, the
  options of both are the six options of the dict literal and nothing of an older section
  of either name is left, and a second call with the same profile name on the written
  file writes the same document again.
\<close>

theorem upsert_overwrites:
  assumes "update_config_file aws_config profile_name config_file = Inr d"
    and "distinct (map fst (sections (read_config_file config_file)))"
  shows "\<exists>account_id role_name.
           parse_profile_name profile_name = Inr (account_id, role_name) \<and>
           filter (\<lambda>s. fst s = ''default'') (sections d) =
             [(''default'',
               [(''sso_start_url'', fix_sso_start_url (sso_start_url aws_config)),
                (''sso_region'', sso_region aws_config),
                (''sso_account_id'', account_id),
                (''sso_role_name'', role_name),
                (''region'', default_region aws_config),
                (''output'', output_format aws_config)])] \<and>
           filter (\<lambda>s. fst s = ''profile '' @ profile_name) (sections d) =
             [(''profile '' @ profile_name,
               [(''sso_start_url'', fix_sso_start_url (sso_start_url aws_config)),
                (''sso_region'', sso_region aws_config),
                (''sso_account_id'', account_id),
                (''sso_role_name'', role_name),
                (''region'', default_region aws_config),
                (''output'', output_format aws_config)])] \<and>
           distinct (map fst (sections d)) \<and>
           update_config_file aws_config profile_name (Some d) = Inr d"
proof -
  from assms(1) obtain a r where
    p: "parse_profile_name profile_name = Inr (a, r)" and
    d: "d = (read_config_file config_file)\<lparr>sections :=
           dict_set (''profile '' @ profile_name)
             (sso_options aws_config (fix_sso_start_url (sso_start_url aws_config)) a r)
             (dict_set ''default''
                (sso_options aws_config (fix_sso_start_url (sso_start_url aws_config)) a r)
                (sections (read_config_file config_file)))\<rparr>" and
    v: "\<And>c key. key \<noteq> ''DEFAULT'' \<Longrightarrow>
       setitem key (sso_options aws_config (fix_sso_start_url (sso_start_url aws_config)) a r) c =
       Inr (c\<lparr>sections := dict_set key (sso_options aws_config
              (fix_sso_start_url (sso_start_url aws_config)) a r) (sections c)\<rparr>)"
    using update_config_file_Inr [OF assms(1)] by blast
  let ?o = "sso_options aws_config (fix_sso_start_url (sso_start_url aws_config)) a r"
  let ?old = "sections (read_config_file config_file)"
  let ?pk = "''profile '' @ profile_name"
  have sd: "sections d = dict_set ?pk ?o (dict_set ''default'' ?o ?old)"
    using d by simp
  have dist1: "distinct (map fst (dict_set ''default'' ?o ?old))"
    using assms(2) by (rule distinct_dict_set)
  have f2: "filter (\<lambda>s. fst s = ?pk) (sections d) = [(?pk, ?o)]"
    unfolding sd using dist1 by (rule filter_key_dict_set)
  have "filter (\<lambda>s. fst s = ''default'') (sections d) =
        filter (\<lambda>s. fst s = ''default'') (dict_set ''default'' ?o ?old)"
    unfolding sd by (rule filter_dict_set_other) simp_all
  also have "\<dots> = [(''default'', ?o)]"
    using assms(2) by (rule filter_key_dict_set)
  finally have f1: "filter (\<lambda>s. fst s = ''default'') (sections d) = [(''default'', ?o)]" .
  have dist2: "distinct (map fst (sections d))"
    unfolding sd using dist1 by (rule distinct_dict_set)
  have m1: "map_of (sections d) ''default'' = Some ?o"
    unfolding sd by (simp add: map_of_dict_set)
  have m2: "map_of (sections d) ?pk = Some ?o"
    unfolding sd by (simp add: map_of_dict_set)
  have again: "update_config_file aws_config profile_name (Some d) = Inr d"
    using p v [of "''default''"] v [of ?pk] m1 m2
    by (simp add: update_config_file_def read_config_file_def dict_set_same map_of_dict_set)
  show ?thesis
    using p f1 f2 dist2 again by (simp add: sso_options_def)
qed

text \<open>
  Claim C8. The document written by \<open>_update_config_file\<close> has the options of the
  \<open>DEFAULT\<close> section and every section other than \<open>default\<close> and \<open>profile {name}\<close>
  as they were read, in the same order and with the same options.
\<close>

theorem upsert_frame:
  assumes "update_config_file aws_config profile_name config_file = Inr d"
  shows "defaults d = defaults (read_config_file config_file) \<and>
         filter (\<lambda>s. fst s \<noteq> ''default'' \<and> fst s \<noteq> ''profile '' @ profile_name) (sections d) =
         filter (\<lambda>s. fst s \<noteq> ''default'' \<and> fst s \<noteq> ''profile '' @ profile_name)
           (sections (read_config_file config_file))"
proof -
  from assms obtain a r where
    d: "d = (read_config_file config_file)\<lparr>sections :=
           dict_set (''profile '' @ profile_name)
             (sso_options aws_config (fix_sso_start_url (sso_start_url aws_config)) a r)
             (dict_set ''default''
                (sso_options aws_config (fix_sso_start_url (sso_start_url aws_config)) a r)
                (sections (read_config_file config_file)))\<rparr>"
    using update_config_file_Inr [OF assms] by blast
  show ?thesis
    unfolding d by (simp add: filter_dict_set_other)
qed

lemma fst_setup_profiles_loop:
  "fst (setup_profiles_loop aws_config available_roles profile_names config_file) =
   profile_names @ map (\<lambda>(account_id, role_name). profile_name_of account_id role_name) available_roles"
  by (induction available_roles arbitrary: profile_names config_file)
     (auto simp: Let_def split: sum.splits)

text \<open>
  Claim C9. Once the access token has been read and the client has been made,
  \<open>setup_profiles\<close> returns the names \<open>sso-{accountId}-{roleName}\<close> of all the
  pairs it is given, in their order, whether the updates of the profiles raised or not.
  In the witness the update for the role name \<open>50%\<close> raises ValueError: its name is
  in the list, its section is not in the file.
\<close>

theorem setup_profiles_names:
  "\<exists>config_file'.
     setup_profiles aws_config (Inr token) (Inr client) available_roles config_file =
     Inr (map (\<lambda>(account_id, role_name). ''sso-'' @ account_id @ ''-'' @ role_name)
            available_roles, config_file')"
proof -
  have "fst (setup_profiles_loop aws_config available_roles [] config_file) =
        map (\<lambda>(account_id, role_name). ''sso-'' @ account_id @ ''-'' @ role_name) available_roles"
    by (simp add: fst_setup_profiles_loop profile_name_of_def)
  then show ?thesis
    by (cases "setup_profiles_loop aws_config available_roles [] config_file")
       (simp add: setup_profiles_def)
qed

theorem upsert_overwrites_witness:
  "update_config_file
     \<lparr>sso_profile = ''sso'', sso_start_url = ''https://d-abc123.awsapps.com/start'',
      sso_region = ''us-east-1'', default_region = ''us-west-2'', output_format = ''json''\<rparr>
     ''sso-111111111111-Admin''
     (Some \<lparr>defaults = [],
            sections = [(''profile sso-111111111111-Admin'',
                         [(''sso_role_name'', ''admin''), (''stale_key'', ''x'')]),
                        (''profile other'', [(''region'', ''eu-west-1'')])]\<rparr>) =
   Inr \<lparr>defaults = [],
        sections = [(''profile sso-111111111111-Admin'',
                     [(''sso_start_url'', ''https://d-abc123.awsapps.com/start/#''),
                      (''sso_region'', ''us-east-1''), (''sso_account_id'', ''111111111111''),
                      (''sso_role_name'', ''Admin''), (''region'', ''us-west-2''),
                      (''output'', ''json'')]),
                    (''profile other'', [(''region'', ''eu-west-1'')]),
                    (''default'',
                     [(''sso_start_url'', ''https://d-abc123.awsapps.com/start/#''),
                      (''sso_region'', ''us-east-1''), (''sso_account_id'', ''111111111111''),
                      (''sso_role_name'', ''Admin''), (''region'', ''us-west-2''),
                      (''output'', ''json'')])]\<rparr> \<and>
   distinct (map fst (sections (read_config_file
     (Some \<lparr>defaults = [],
            sections = [(''profile sso-111111111111-Admin'',
                         [(''sso_role_name'', ''admin''), (''stale_key'', ''x'')]),
                        (''profile other'', [(''region'', ''eu-west-1'')])]\<rparr>)))) \<and>
   update_config_file
     \<lparr>sso_profile = ''sso'', sso_start_url = ''https://d-abc123.awsapps.com/start'',
      sso_region = ''us-east-1'', default_region = ''us-west-2'', output_format = ''json''\<rparr>
     ''sso-111111111111-Admin''
     (Some \<lparr>defaults = [],
        sections = [(''profile sso-111111111111-Admin'',
                     [(''sso_start_url'', ''https://d-abc123.awsapps.com/start/#''),
                      (''sso_region'', ''us-east-1''), (''sso_account_id'', ''111111111111''),
                      (''sso_role_name'', ''Admin''), (''region'', ''us-west-2''),
                      (''output'', ''json'')]),
                    (''profile other'', [(''region'', ''eu-west-1'')]),
                    (''default'',
                     [(''sso_start_url'', ''https://d-abc123.awsapps.com/start/#''),
                      (''sso_region'', ''us-east-1''), (''sso_account_id'', ''111111111111''),
                      (''sso_role_name'', ''Admin''), (''region'', ''us-west-2''),
                      (''output'', ''json'')])]\<rparr>) =
   Inr \<lparr>defaults = [],
        sections = [(''profile sso-111111111111-Admin'',
                     [(''sso_start_url'', ''https://d-abc123.awsapps.com/start/#''),
                      (''sso_region'', ''us-east-1''), (''sso_account_id'', ''111111111111''),
                      (''sso_role_name'', ''Admin''), (''region'', ''us-west-2''),
                      (''output'', ''json'')]),
                    (''profile other'', [(''region'', ''eu-west-1'')]),
                    (''default'',
                     [(''sso_start_url'', ''https://d-abc123.awsapps.com/start/#''),
                      (''sso_region'', ''us-east-1''), (''sso_account_id'', ''111111111111''),
                      (''sso_role_name'', ''Admin''), (''region'', ''us-west-2''),
                      (''output'', ''json'')])]\<rparr>"
  (is "?u = Inr ?new \<and> ?dist \<and> ?again")
proof -
  have h1: "?u = Inr ?new"
    by code_simp
  have h2: ?dist
    by (simp add: read_config_file_def)
  from upsert_overwrites [OF h1 h2] have ?again
    by blast
  with h1 h2 show ?thesis
    by blast
qed

theorem upsert_frame_witness:
  "update_config_file
     \<lparr>sso_profile = ''sso'', sso_start_url = ''https://d-abc123.awsapps.com/start/'',
      sso_region = ''us-east-1'', default_region = ''us-west-2'', output_format = ''json''\<rparr>
     ''sso-222222222222-ReadOnly''
     (Some \<lparr>defaults = [(''cli_pager'', ''less'')],
            sections = [(''profile dev'', [(''region'', ''eu-west-1'')]),
                        (''default'', [(''region'', ''eu-west-1'')])]\<rparr>) =
   Inr \<lparr>defaults = [(''cli_pager'', ''less'')],
        sections = [(''profile dev'', [(''region'', ''eu-west-1'')]),
                    (''default'',
                     [(''sso_start_url'', ''https://d-abc123.awsapps.com/start/#''),
                      (''sso_region'', ''us-east-1''), (''sso_account_id'', ''222222222222''),
                      (''sso_role_name'', ''ReadOnly''), (''region'', ''us-west-2''),
                      (''output'', ''json'')]),
                    (''profile sso-222222222222-ReadOnly'',
                     [(''sso_start_url'', ''https://d-abc123.awsapps.com/start/#''),
                      (''sso_region'', ''us-east-1''), (''sso_account_id'', ''222222222222''),
                      (''sso_role_name'', ''ReadOnly''), (''region'', ''us-west-2''),
                      (''output'', ''json'')])]\<rparr> \<and>
   filter (\<lambda>s. fst s \<noteq> ''default'' \<and> fst s \<noteq> ''profile '' @ ''sso-222222222222-ReadOnly'')
     (sections \<lparr>defaults = [(''cli_pager'', ''less'')],
        sections = [(''profile dev'', [(''region'', ''eu-west-1'')]),
                    (''default'',
                     [(''sso_start_url'', ''https://d-abc123.awsapps.com/start/#''),
                      (''sso_region'', ''us-east-1''), (''sso_account_id'', ''222222222222''),
                      (''sso_role_name'', ''ReadOnly''), (''region'', ''us-west-2''),
                      (''output'', ''json'')]),
                    (''profile sso-222222222222-ReadOnly'',
                     [(''sso_start_url'', ''https://d-abc123.awsapps.com/start/#''),
                      (''sso_region'', ''us-east-1''), (''sso_account_id'', ''222222222222''),
                      (''sso_role_name'', ''ReadOnly''), (''region'', ''us-west-2''),
                      (''output'', ''json'')])]\<rparr>) =
   [(''profile dev'', [(''region'', ''eu-west-1'')])]"
  (is "?u = Inr ?new \<and> ?frame")
proof -
  have h: "?u = Inr ?new"
    by code_simp
  from upsert_frame [OF h] have ?frame
    by (simp add: read_config_file_def)
  with h show ?thesis
    by blast
qed

theorem setup_profiles_names_witness:
  "setup_profiles
     \<lparr>sso_profile = ''sso'', sso_start_url = ''https://d-abc123.awsapps.com/start'',
      sso_region = ''us-east-1'', default_region = ''us-west-2'', output_format = ''json''\<rparr>
     (Inr ''token'') (Inr ())
     [(''111111111111'', ''AdministratorAccess''), (''222222222222'', ''50%''),
      (''333333333333'', ''ReadOnly'')] None =
   Inr ([''sso-111111111111-AdministratorAccess'', ''sso-222222222222-50%'',
         ''sso-333333333333-ReadOnly''],
        Some \<lparr>defaults = [],
          sections =
            [(''default'',
              [(''sso_start_url'', ''https://d-abc123.awsapps.com/start/#''),
               (''sso_region'', ''us-east-1''), (''sso_account_id'', ''333333333333''),
               (''sso_role_name'', ''ReadOnly''), (''region'', ''us-west-2''),
               (''output'', ''json'')]),
             (''profile sso-111111111111-AdministratorAccess'',
              [(''sso_start_url'', ''https://d-abc123.awsapps.com/start/#''),
               (''sso_region'', ''us-east-1''), (''sso_account_id'', ''111111111111''),
               (''sso_role_name'', ''AdministratorAccess''), (''region'', ''us-west-2''),
               (''output'', ''json'')]),
             (''profile sso-333333333333-ReadOnly'',
              [(''sso_start_url'', ''https://d-abc123.awsapps.com/start/#''),
               (''sso_region'', ''us-east-1''), (''sso_account_id'', ''333333333333''),
               (''sso_role_name'', ''ReadOnly''), (''region'', ''us-west-2''),
               (''output'', ''json'')])]\<rparr>) \<and>
   update_profile
     \<lparr>sso_profile = ''sso'', sso_start_url = ''https://d-abc123.awsapps.com/start'',
      sso_region = ''us-east-1'', default_region = ''us-west-2'', output_format = ''json''\<rparr>
     ''222222222222'' ''50%'' ''sso-222222222222-50%'' None = Inl ValueError"
  (is "?s = Inr (?names, ?file) \<and> ?raised")
proof -
  have f: "snd (case ?s of Inr r \<Rightarrow> r) = ?file"
    by code_simp
  have r: ?raised
    by code_simp
  from setup_profiles_names
    [of "\<lparr>sso_profile = ''sso'', sso_start_url = ''https://d-abc123.awsapps.com/start'',
      sso_region = ''us-east-1'', default_region = ''us-west-2'', output_format = ''json''\<rparr>"
      "''token''" "()"
      "[(''111111111111'', ''AdministratorAccess''), (''222222222222'', ''50%''),
      (''333333333333'', ''ReadOnly'')]" None]
  obtain file' where s: "?s = Inr (?names, file')"
    by auto
  with f have "file' = ?file"
    by simp
  with s r show ?thesis
    by blast
qed

section \<open>Strings: containment, stripping, splitting and joining\<close>

lemma startswith_iff: "startswith s p \<longleftrightarrow> (\<exists>t. s = p @ t)"
  unfolding startswith_def
  by (metis append_eq_conv_conj append_take_drop_id)

lemma contains_iff: "contains s sub \<longleftrightarrow> (\<exists>a c. s = a @ sub @ c)"
proof (induction s)
  case Nil
  then show ?case by auto
next
  case (Cons x s)
  show ?case
  proof
    assume "contains (x # s) sub"
    then consider "startswith (x # s) sub" | "contains s sub" by auto
    then show "\<exists>a c. x # s = a @ sub @ c"
    proof cases
      case 1
      then obtain t where "x # s = sub @ t" by (auto simp: startswith_iff)
      then have "x # s = [] @ sub @ t" by simp
      then show ?thesis by blast
    next
      case 2
      with Cons.IH obtain a c where "s = a @ sub @ c" by blast
      then have "x # s = (x # a) @ sub @ c" by simp
      then show ?thesis by blast
    qed
  next
    assume "\<exists>a c. x # s = a @ sub @ c"
    then obtain a c where e: "x # s = a @ sub @ c" by blast
    show "contains (x # s) sub"
    proof (cases a)
      case Nil
      with e have "startswith (x # s) sub" by (auto simp: startswith_iff)
      then show ?thesis by simp
    next
      case (Cons y a')
      with e have "s = a' @ sub @ c" by simp
      with Cons.IH have "contains s sub" by blast
      then show ?thesis by simp
    qed
  qed
qed

lemma contains_set: "contains s sub \<Longrightarrow> set sub \<subseteq> set s"
  by (auto simp: contains_iff)

lemma all_dropWhile: "(\<forall>x \<in> set (dropWhile P s). P x) \<longleftrightarrow> (\<forall>x \<in> set s. P x)"
  by (induction s) auto

lemma strip_Nil_iff: "strip s = [] \<longleftrightarrow> (\<forall>c \<in> set s. isspace c)"
  by (simp add: strip_def dropWhile_eq_Nil_conv all_dropWhile)

lemma blank_not_contains:
  assumes "strip s = []" and "c \<in> set sub" and "\<not> isspace c"
  shows "\<not> contains s sub"
  using assms contains_set [of s sub] by (auto simp: strip_Nil_iff)

lemma strip_keeps_prefix:
  assumes "a \<noteq> []" and "\<not> isspace (hd a)" and "\<not> isspace (last a)"
  shows "\<exists>t. strip (a @ s) = a @ t"
proof -
  from assms obtain h a' where a: "a = h # a'" and h: "\<not> isspace h"
    by (cases a) auto
  have d1: "dropWhile isspace (a @ s) = a @ s"
    using a h by simp
  from assms have "last a \<in> set a" by simp
  with assms(3) have ex: "\<exists>x \<in> set (rev a). \<not> isspace x" by auto
  have d2: "dropWhile isspace (rev a) = rev a"
    using assms by (cases a rule: rev_cases) auto
  have "\<exists>u. dropWhile isspace (rev s @ rev a) = u @ rev a"
  proof (cases "\<forall>x \<in> set (rev s). isspace x")
    case True
    then have "dropWhile isspace (rev s @ rev a) = dropWhile isspace (rev a)"
      by (intro dropWhile_append2) auto
    with d2 show ?thesis by simp
  next
    case False
    then have "dropWhile isspace (rev s @ rev a) = dropWhile isspace (rev s) @ rev a"
      by (auto simp: dropWhile_append1)
    then show ?thesis by blast
  qed
  then obtain u where "dropWhile isspace (rev s @ rev a) = u @ rev a" by blast
  then have "strip (a @ s) = a @ rev u"
    by (simp add: strip_def d1)
  then show ?thesis by blast
qed

lemma is_export_line_aws_export: "is_export_line (aws_export default_profile)"
proof -
  have "\<exists>t. strip (''export AWS_DEFAULT_PROFILE='' @ default_profile) =
          ''export AWS_DEFAULT_PROFILE='' @ t"
    by (rule strip_keeps_prefix) (simp_all add: isspace_def)
  then show ?thesis
    by (auto simp: is_export_line_def aws_export_def startswith_iff)
qed

lemma is_export_line_not_blank: "is_export_line l \<Longrightarrow> strip l \<noteq> []"
  by (auto simp: is_export_line_def startswith_def)

lemma not_export_alias: "\<not> is_export_line clear_aws_alias"
  by code_simp

lemma not_blank_alias: "strip clear_aws_alias \<noteq> []"
  by code_simp

lemma not_export_Nil: "\<not> is_export_line []"
  by code_simp

lemma split_acc_nosep: "sep \<notin> set a \<Longrightarrow> split_acc sep cur a = [cur @ a]"
  by (induction a arbitrary: cur) auto

lemma split_acc_pieces:
  "sep \<notin> set cur \<Longrightarrow> l \<in> set (split_acc sep cur s) \<Longrightarrow> sep \<notin> set l"
proof (induction s arbitrary: cur)
  case Nil
  then show ?case by simp
next
  case (Cons c s)
  show ?case
  proof (cases "c = sep")
    case True
    with Cons.prems have "l = cur \<or> l \<in> set (split_acc sep [] s)" by simp
    then show ?thesis
      using Cons.prems(1) Cons.IH [of "[]"] by auto
  next
    case False
    with Cons.prems have "l \<in> set (split_acc sep (cur @ [c]) s)" by simp
    moreover from False Cons.prems(1) have "sep \<notin> set (cur @ [c])" by auto
    ultimately show ?thesis by (rule Cons.IH [rotated])
  qed
qed

lemma split_join:
  "ls \<noteq> [] \<Longrightarrow> (\<And>l. l \<in> set ls \<Longrightarrow> sep \<notin> set l) \<Longrightarrow> split sep (join sep ls) = ls"
proof (induction sep ls rule: join.induct)
  case (1 sep)
  then show ?case by simp
next
  case (2 sep x)
  then show ?case by (simp add: split_def split_acc_nosep)
next
  case (3 sep x y ys)
  have "split_acc sep [] (x @ sep # join sep (y # ys)) =
        ([] @ x) # split_acc sep [] (join sep (y # ys))"
    by (rule split_acc_cut) (simp add: 3)
  moreover have "split sep (join sep (y # ys)) = y # ys"
    using 3 by simp
  ultimately show ?case by (simp add: split_def)
qed

lemma join_not_Nil: "x \<in> set ls \<Longrightarrow> x \<noteq> [] \<Longrightarrow> join sep ls \<noteq> []"
  by (induction sep ls rule: join.induct) auto

lemma join_has_line: "l \<in> set ls \<Longrightarrow> \<exists>a c. join sep ls = a @ l @ c"
proof (induction sep ls rule: join.induct)
  case (1 sep)
  then show ?case by simp
next
  case (2 sep x)
  then have "join sep [x] = [] @ l @ []" by simp
  then show ?case by blast
next
  case (3 sep x y ys)
  show ?case
  proof (cases "l = x")
    case True
    then have "join sep (x # y # ys) = [] @ l @ (sep # join sep (y # ys))" by simp
    then show ?thesis by blast
  next
    case False
    with 3 obtain a c where "join sep (y # ys) = a @ l @ c" by auto
    then have "join sep (x # y # ys) = (x @ sep # a) @ l @ c" by simp
    then show ?thesis by blast
  qed
qed

lemma contains_join: "l \<in> set ls \<Longrightarrow> contains (join sep ls) l"
  using join_has_line [of l ls sep] by (simp add: contains_iff)

lemma content_lines_no_newline: "l \<in> set (content_lines content) \<Longrightarrow> newline \<notin> set l"
  using split_acc_pieces [of newline "[]" l content]
  by (auto simp: content_lines_def split_def split: if_splits)

lemma content_lines_join:
  assumes "\<And>l. l \<in> set ls \<Longrightarrow> newline \<notin> set l" and "x \<in> set ls" and "x \<noteq> []"
  shows "content_lines (join newline ls) = ls"
proof -
  from assms(2) have "ls \<noteq> []" by auto
  then have "split newline (join newline ls) = ls"
    using assms(1) by (rule split_join)
  moreover have "join newline ls \<noteq> []"
    using assms(2,3) by (rule join_not_Nil)
  ultimately show ?thesis by (simp add: content_lines_def)
qed

section \<open>The Bash merge\<close>

lemma bash_loop_exports:
  "filter is_export_line (fst (bash_loop dp ls new added b)) =
     filter is_export_line new @
     (if \<not> added \<and> (\<exists>l \<in> set ls. is_export_line l) then [aws_export dp] else []) \<and>
   snd (bash_loop dp ls new added b) = (added \<or> (\<exists>l \<in> set ls. is_export_line l))"
proof (induction ls arbitrary: new added b)
  case Nil
  then show ?case by simp
next
  case (Cons line ls)
  show ?case
  proof (cases "strip line = []")
    case True
    then have "\<not> is_export_line line"
      using is_export_line_not_blank by blast
    with True show ?thesis
      by (simp add: Cons.IH)
  next
    case False
    then show ?thesis
      by (simp add: Cons.IH is_export_line_aws_export)
  qed
qed

lemma bash_loop_count:
  assumes "strip x \<noteq> []" and "\<not> is_export_line x"
  shows "count_list (fst (bash_loop dp ls new added b)) x = count_list new x + count_list ls x"
proof -
  from assms(2) have "x \<noteq> aws_export dp"
    using is_export_line_aws_export by auto
  with assms show ?thesis
    by (induction ls arbitrary: new added b) auto
qed

lemma bash_loop_lines:
  "set (fst (bash_loop dp ls new added b)) \<subseteq> set new \<union> set ls \<union> {aws_export dp}"
proof (induction ls arbitrary: new added b)
  case Nil
  then show ?case by auto
next
  case (Cons line ls)
  have "set (fst (bash_loop dp ls (new @ [line]) added (b + 1))) \<subseteq>
          set (new @ [line]) \<union> set ls \<union> {aws_export dp}"
       "set (fst (bash_loop dp ls new added (b + 1))) \<subseteq> set new \<union> set ls \<union> {aws_export dp}"
       "set (fst (bash_loop dp ls (new @ [aws_export dp]) True 0)) \<subseteq>
          set (new @ [aws_export dp]) \<union> set ls \<union> {aws_export dp}"
       "set (fst (bash_loop dp ls new added 0)) \<subseteq> set new \<union> set ls \<union> {aws_export dp}"
       "set (fst (bash_loop dp ls (new @ [line]) added 0)) \<subseteq>
          set (new @ [line]) \<union> set ls \<union> {aws_export dp}"
    by (rule Cons.IH)+
  then show ?case
    by (auto split: if_splits)
qed

lemma blank_separated_lines: "set (blank_separated ls) \<subseteq> set ls \<union> {[]}"
  by (auto simp: blank_separated_def)

lemma filter_blank_separated:
  "\<not> P [] \<Longrightarrow> filter P (blank_separated ls) = filter P ls"
  by (simp add: blank_separated_def)

lemma count_blank_separated:
  "x \<noteq> [] \<Longrightarrow> count_list (blank_separated ls) x = count_list ls x"
  by (simp add: blank_separated_def)

lemma bash_new_lines_exports:
  "filter is_export_line (bash_new_lines dp ls) = [aws_export dp]"
proof -
  obtain pre added where l: "bash_loop dp ls [] False 0 = (pre, added)"
    by (cases "bash_loop dp ls [] False 0")
  from bash_loop_exports [of dp ls "[]" False 0] l
  have f: "filter is_export_line pre = (if added then [aws_export dp] else [])"
    by auto
  show ?thesis
    by (simp add: bash_new_lines_def Let_def l f filter_blank_separated not_export_Nil
        not_export_alias is_export_line_aws_export)
qed

lemma bash_new_lines_lines:
  "set (bash_new_lines dp ls) \<subseteq> set ls \<union> {aws_export dp, [], clear_aws_alias}"
proof -
  obtain pre added where l: "bash_loop dp ls [] False 0 = (pre, added)"
    by (cases "bash_loop dp ls [] False 0")
  from bash_loop_lines [of dp ls "[]" False 0] l
  have "set pre \<subseteq> set ls \<union> {aws_export dp}"
    by simp
  with blank_separated_lines [of pre] show ?thesis
    by (auto simp: bash_new_lines_def Let_def l)
qed

lemma bash_new_lines_alias:
  "contains (join newline (bash_new_lines dp ls)) clear_aws_alias \<and>
   count_list ls clear_aws_alias \<le> count_list (bash_new_lines dp ls) clear_aws_alias \<and>
   count_list (bash_new_lines dp ls) clear_aws_alias \<le> max 1 (count_list ls clear_aws_alias)"
proof -
  obtain pre added where l: "bash_loop dp ls [] False 0 = (pre, added)"
    by (cases "bash_loop dp ls [] False 0")
  define pre' where
    "pre' = (if \<not> added then blank_separated pre @ [aws_export dp] else pre)"
  have ne: "clear_aws_alias \<noteq> aws_export dp"
    using is_export_line_aws_export [of dp] not_export_alias by auto
  have ne2: "clear_aws_alias \<noteq> []"
    by (simp add: clear_aws_alias_def)
  from bash_loop_count [OF not_blank_alias not_export_alias, of dp ls "[]" False 0] l
  have "count_list pre clear_aws_alias = count_list ls clear_aws_alias"
    by simp
  then have c: "count_list pre' clear_aws_alias = count_list ls clear_aws_alias"
    using ne ne2 by (simp add: pre'_def count_blank_separated)
  have out: "bash_new_lines dp ls =
      (if \<not> contains (join newline pre') clear_aws_alias then pre' @ [clear_aws_alias] else pre')"
    by (simp add: bash_new_lines_def Let_def l pre'_def)
  show ?thesis
  proof (cases "contains (join newline pre') clear_aws_alias")
    case True
    with out c show ?thesis by simp
  next
    case False
    then have "clear_aws_alias \<notin> set pre'"
      using contains_join by blast
    then have "count_list pre' clear_aws_alias = 0"
      by (simp add: count_list_0_iff)
    with False out c show ?thesis
      by (simp add: contains_join)
  qed
qed

section \<open>The PowerShell merge\<close>

lemma is_env_line_aws_env: "is_env_line (aws_env default_profile)"
proof -
  have "aws_env default_profile =
        [] @ ''$env:AWS_DEFAULT_PROFILE'' @ ('' = '' @ [CHR 0x27] @ default_profile @ [CHR 0x27])"
    by (simp add: aws_env_def)
  then show ?thesis
    unfolding is_env_line_def contains_iff by blast
qed

lemma is_env_line_not_blank: "is_env_line l \<Longrightarrow> strip l \<noteq> []"
  unfolding is_env_line_def
  using blank_not_contains [of l "CHR ''$''" "''$env:AWS_DEFAULT_PROFILE''"]
  by (auto simp: isspace_def)

lemma is_function_line_not_blank: "is_function_line l \<Longrightarrow> strip l \<noteq> []"
  unfolding is_function_line_def
  using blank_not_contains [of l "CHR ''f''" "''function Clear-AWS''"]
  by (auto simp: isspace_def)

lemma count_list_filter: "count_list (filter P xs) x = (if P x then count_list xs x else 0)"
  by (induction xs) auto

lemma powershell_loop_envs:
  "filter is_env_line (fst (powershell_loop dp ls new added ca b)) =
     filter is_env_line new @
     (if \<not> added \<and> (\<exists>l \<in> set ls. is_env_line l) then [aws_env dp] else []) \<and>
   fst (snd (powershell_loop dp ls new added ca b)) = (added \<or> (\<exists>l \<in> set ls. is_env_line l))"
proof (induction ls arbitrary: new added ca b)
  case Nil
  then show ?case by simp
next
  case (Cons line ls)
  show ?case
  proof (cases "strip line = []")
    case True
    then have "\<not> is_env_line line"
      using is_env_line_not_blank by blast
    with True show ?thesis
      by (simp add: Cons.IH)
  next
    case False
    then show ?thesis
      by (simp add: Cons.IH is_env_line_aws_env)
  qed
qed

lemma powershell_loop_clear_aws_added:
  "snd (snd (powershell_loop dp ls new added ca b)) =
     (ca \<or> (\<exists>l \<in> set ls. \<not> is_env_line l \<and> is_function_line l))"
proof (induction ls arbitrary: new added ca b)
  case Nil
  then show ?case by simp
next
  case (Cons line ls)
  show ?case
  proof (cases "strip line = []")
    case True
    then have "\<not> is_function_line line"
      using is_function_line_not_blank by blast
    with True show ?thesis
      by (simp add: Cons.IH)
  next
    case False
    then show ?thesis
      by (auto simp: Cons.IH)
  qed
qed

lemma powershell_loop_count:
  assumes "strip x \<noteq> []" and "\<not> is_env_line x"
  shows "count_list (fst (powershell_loop dp ls new added ca b)) x =
         count_list new x + count_list ls x"
proof -
  from assms(2) have "x \<noteq> aws_env dp"
    using is_env_line_aws_env [of dp] by auto
  with assms show ?thesis
    by (induction ls arbitrary: new added ca b) auto
qed

lemma powershell_loop_lines:
  "x \<in> set (fst (powershell_loop dp ls new added ca b)) \<Longrightarrow>
   x \<in> set new \<or> x \<in> set ls \<or> x = aws_env dp"
proof (induction ls arbitrary: new added ca b)
  case Nil
  then show ?case by simp
next
  case (Cons line ls)
  from Cons.prems obtain n a c k where
    "x \<in> set (fst (powershell_loop dp ls n a c k))" and
    "n = new \<or> n = new @ [line] \<or> n = new @ [aws_env dp]"
    by (auto split: if_splits)
  then show ?case
    using Cons.IH [of n a c k] by auto
qed

lemma function_start_facts:
  "\<not> is_env_line ''function Clear-AWS {''"
  "strip ''function Clear-AWS {'' \<noteq> []"
  "is_function_line ''function Clear-AWS {''"
  "count_list clear_aws_function ''function Clear-AWS {'' = 1"
  "hd clear_aws_function = ''function Clear-AWS {''"
  by code_simp+

lemma filter_env_clear_aws_function:
  "filter is_env_line clear_aws_function = [''    $env:AWS_DEFAULT_PROFILE = 'default'' @ [CHR 0x27]]"
  by code_simp

lemma aws_env_not_indented: "aws_env dp \<noteq> ''    $env:AWS_DEFAULT_PROFILE = 'default'' @ [CHR 0x27]"
  by (simp add: aws_env_def)

lemma powershell_new_lines_unfold:
  assumes "powershell_loop dp ls [] False False 0 = (pre, added, ca)"
  shows "powershell_new_lines dp ls =
    (if \<not> ca
     then blank_separated (if \<not> added then blank_separated pre @ [aws_env dp] else pre) @
          clear_aws_function
     else (if \<not> added then blank_separated pre @ [aws_env dp] else pre))"
  by (simp add: powershell_new_lines_def Let_def assms)

lemma not_env_Nil: "\<not> is_env_line []"
  by code_simp

lemma powershell_new_lines_env:
  "count_list (powershell_new_lines dp ls) (aws_env dp) = 1"
proof -
  obtain pre added ca where l: "powershell_loop dp ls [] False False 0 = (pre, added, ca)"
    by (cases "powershell_loop dp ls [] False False 0") auto
  from powershell_loop_envs [of dp ls "[]" False False 0] l
  have f: "filter is_env_line pre = (if added then [aws_env dp] else [])"
    by auto
  have "filter is_env_line (powershell_new_lines dp ls) =
        aws_env dp # (if ca then [] else filter is_env_line clear_aws_function)"
    by (simp add: powershell_new_lines_unfold [OF l] f filter_blank_separated not_env_Nil
        is_env_line_aws_env)
  then have "count_list (filter is_env_line (powershell_new_lines dp ls)) (aws_env dp) = 1"
    using aws_env_not_indented [of dp] by (simp add: filter_env_clear_aws_function)
  then show ?thesis
    by (simp add: count_list_filter is_env_line_aws_env)
qed

lemma powershell_new_lines_lines:
  "set (powershell_new_lines dp ls) \<subseteq> set ls \<union> {aws_env dp, []} \<union> set clear_aws_function"
proof -
  obtain pre added ca where l: "powershell_loop dp ls [] False False 0 = (pre, added, ca)"
    by (cases "powershell_loop dp ls [] False False 0") auto
  from powershell_loop_lines [of _ dp ls "[]" False False 0] l
  have p: "set pre \<subseteq> set ls \<union> {aws_env dp}"
    by auto
  define pre' where "pre' = (if \<not> added then blank_separated pre @ [aws_env dp] else pre)"
  have "set pre' \<subseteq> set ls \<union> {aws_env dp, []}"
    using p blank_separated_lines [of pre] by (auto simp: pre'_def)
  then have "set (blank_separated pre') \<subseteq> set ls \<union> {aws_env dp, []}" "set pre' \<subseteq> set ls \<union> {aws_env dp, []}"
    using blank_separated_lines [of pre'] by auto
  then show ?thesis
    unfolding powershell_new_lines_unfold [OF l] pre'_def [symmetric] by auto
qed

lemma powershell_new_lines_function:
  "list_ex is_function_line (powershell_new_lines dp ls) \<and>
   count_list ls ''function Clear-AWS {'' \<le>
     count_list (powershell_new_lines dp ls) ''function Clear-AWS {'' \<and>
   count_list (powershell_new_lines dp ls) ''function Clear-AWS {'' \<le>
     max 1 (count_list ls ''function Clear-AWS {'')"
proof -
  let ?f = "''function Clear-AWS {''"
  obtain pre added ca where l: "powershell_loop dp ls [] False False 0 = (pre, added, ca)"
    by (cases "powershell_loop dp ls [] False False 0") auto
  define pre' where "pre' = (if \<not> added then blank_separated pre @ [aws_env dp] else pre)"
  have out: "powershell_new_lines dp ls =
      (if \<not> ca then blank_separated pre' @ clear_aws_function else pre')"
    unfolding powershell_new_lines_unfold [OF l] pre'_def by simp
  have ne: "?f \<noteq> aws_env dp"
    using is_env_line_aws_env [of dp] function_start_facts(1) by auto
  have cnt: "\<And>x. strip x \<noteq> [] \<Longrightarrow> \<not> is_env_line x \<Longrightarrow> count_list pre x = count_list ls x"
    using powershell_loop_count [of _ dp ls "[]" False False 0] l by simp
  have c: "count_list pre' ?f = count_list ls ?f"
    using cnt [OF function_start_facts(2,1)] ne by (simp add: pre'_def count_blank_separated)
  from powershell_loop_clear_aws_added [of dp ls "[]" False False 0] l
  have ca: "ca = (\<exists>l \<in> set ls. \<not> is_env_line l \<and> is_function_line l)"
    by simp
  show ?thesis
  proof (cases ca)
    case True
    with ca obtain x where x: "x \<in> set ls" "\<not> is_env_line x" "is_function_line x"
      by blast
    then have "count_list pre x = count_list ls x"
      using cnt is_function_line_not_blank by blast
    with x(1) have "x \<in> set pre"
      by (metis count_list_0_iff)
    then have "x \<in> set pre'"
      by (auto simp: pre'_def blank_separated_def)
    with x(3) True out c show ?thesis
      by (auto simp: list_ex_iff)
  next
    case False
    with ca function_start_facts(1,3) have "?f \<notin> set ls"
      by blast
    then have z: "count_list ls ?f = 0"
      by (simp add: count_list_0_iff)
    have "is_function_line (hd clear_aws_function)" "hd clear_aws_function \<in> set clear_aws_function"
      by (simp_all add: function_start_facts clear_aws_function_def)
    then have "list_ex is_function_line (blank_separated pre' @ clear_aws_function)"
      unfolding list_ex_iff by auto
    with False out c z show ?thesis
      by (simp add: count_blank_separated function_start_facts(4))
  qed
qed

section \<open>The profile files after a merge\<close>

lemma newline_free_directives:
  "newline \<notin> set clear_aws_alias"
  "\<forall>l \<in> set clear_aws_function. newline \<notin> set l"
  by code_simp+

lemma content_lines_setup_bash_profile:
  assumes "newline \<notin> set default_profile"
  shows "content_lines (setup_bash_profile default_profile bashrc_file) =
         bash_new_lines default_profile (content_lines (read_content bashrc_file))"
proof -
  let ?ls = "content_lines (read_content bashrc_file)"
  let ?out = "bash_new_lines default_profile ?ls"
  have e: "newline \<notin> set (aws_export default_profile)"
    using assms by (simp add: aws_export_def newline_def)
  have "\<And>l. l \<in> set ?out \<Longrightarrow> newline \<notin> set l"
    using bash_new_lines_lines [of default_profile ?ls] content_lines_no_newline e
      newline_free_directives(1) by fastforce
  moreover have "aws_export default_profile \<in> set (filter is_export_line ?out)"
    by (simp add: bash_new_lines_exports)
  then have "aws_export default_profile \<in> set ?out"
    by simp
  moreover have "aws_export default_profile \<noteq> []"
    by (simp add: aws_export_def)
  ultimately have "content_lines (join newline ?out) = ?out"
    by (rule content_lines_join)
  then show ?thesis
    by (simp add: setup_bash_profile_def)
qed

lemma content_lines_setup_powershell_profile:
  assumes "newline \<notin> set default_profile"
  shows "content_lines (setup_powershell_profile default_profile ps_profile_file) =
         powershell_new_lines default_profile (content_lines (read_content ps_profile_file))"
proof -
  let ?ls = "content_lines (read_content ps_profile_file)"
  let ?out = "powershell_new_lines default_profile ?ls"
  have e: "newline \<notin> set (aws_env default_profile)"
    using assms by (simp add: aws_env_def newline_def)
  have "\<And>l. l \<in> set ?out \<Longrightarrow> newline \<notin> set l"
    using powershell_new_lines_lines [of default_profile ?ls] content_lines_no_newline e
      newline_free_directives(2) by fastforce
  moreover have "count_list ?out (aws_env default_profile) \<noteq> 0"
    by (simp add: powershell_new_lines_env)
  then have "aws_env default_profile \<in> set ?out"
    by (simp add: count_list_0_iff)
  moreover have "aws_env default_profile \<noteq> []"
    by (simp add: aws_env_def)
  ultimately have "content_lines (join newline ?out) = ?out"
    by (rule content_lines_join)
  then show ?thesis
    by (simp add: setup_powershell_profile_def)
qed

lemma startswith_append_sep:
  assumes "c \<notin> set a"
  shows "startswith (x @ c # r) a = startswith x a"
proof (cases "length a \<le> length x")
  case True
  then show ?thesis by (simp add: startswith_def)
next
  case False
  then have "take (length a) (x @ c # r) = x @ c # take (length a - Suc (length x)) r"
    by (simp add: take_Cons')
  then have "c \<in> set (take (length a) (x @ c # r))"
    by simp
  with assms have "take (length a) (x @ c # r) \<noteq> a"
    by metis
  moreover from False have "length (take (length a) x) \<noteq> length a"
    by simp
  then have "take (length a) x \<noteq> a"
    by auto
  ultimately show ?thesis
    by (simp add: startswith_def)
qed

lemma contains_append_sep:
  assumes "c \<notin> set a"
  shows "contains (x @ c # r) a \<longleftrightarrow> contains x a \<or> contains r a"
proof (induction x)
  case Nil
  have "startswith (c # r) a = startswith [] a"
    using startswith_append_sep [OF assms, of "[]" r] by simp
  then show ?case
    by (auto simp: startswith_def)
next
  case (Cons y x)
  have "startswith (y # x @ c # r) a = startswith (y # x) a"
    using startswith_append_sep [OF assms, of "y # x" r] by simp
  with Cons show ?case
    by auto
qed

lemma contains_join_iff:
  "sep \<notin> set a \<Longrightarrow> a \<noteq> [] \<Longrightarrow>
   contains (join sep ls) a \<longleftrightarrow> (\<exists>l \<in> set ls. contains l a)"
proof (induction sep ls rule: join.induct)
  case (1 sep)
  then show ?case by simp
next
  case (2 sep x)
  then show ?case by simp
next
  case (3 sep x y ys)
  have "contains (x @ sep # join sep (y # ys)) a \<longleftrightarrow>
        contains x a \<or> contains (join sep (y # ys)) a"
    using "3.prems"(1) by (rule contains_append_sep)
  with 3 show ?case
    by simp
qed

lemma strip_Nil: "strip [] = []"
  by (simp add: strip_def)

lemma bash_loop_kept:
  "filter (\<lambda>l. strip l \<noteq> [] \<and> \<not> is_export_line l) (fst (bash_loop dp ls new added b)) =
   filter (\<lambda>l. strip l \<noteq> [] \<and> \<not> is_export_line l) new @
   filter (\<lambda>l. strip l \<noteq> [] \<and> \<not> is_export_line l) ls"
  by (induction ls arbitrary: new added b) (simp_all add: is_export_line_aws_export)

lemma alias_line_not_blank:
  assumes "contains l clear_aws_alias"
  shows "strip l \<noteq> []"
  using assms blank_not_contains [of l "CHR ''a''" clear_aws_alias]
  by (auto simp: isspace_def clear_aws_alias_def)

lemma bash_new_lines_kept:
  "filter (\<lambda>l. strip l \<noteq> [] \<and> \<not> is_export_line l) (bash_new_lines dp ls) =
   filter (\<lambda>l. strip l \<noteq> [] \<and> \<not> is_export_line l) ls @
   (if list_ex (\<lambda>l. strip l \<noteq> [] \<and> \<not> is_export_line l \<and> contains l clear_aws_alias) ls \<or>
       contains (aws_export dp) clear_aws_alias
    then [] else [clear_aws_alias])"
proof -
  let ?K = "\<lambda>l. strip l \<noteq> [] \<and> \<not> is_export_line l"
  obtain pre added where l: "bash_loop dp ls [] False 0 = (pre, added)"
    by (cases "bash_loop dp ls [] False 0")
  define pre' where
    "pre' = (if \<not> added then blank_separated pre @ [aws_export dp] else pre)"
  have out: "bash_new_lines dp ls =
      (if \<not> contains (join newline pre') clear_aws_alias then pre' @ [clear_aws_alias] else pre')"
    by (simp add: bash_new_lines_def Let_def l pre'_def)
  from bash_loop_kept [of dp ls "[]" False 0] l
  have "filter ?K pre = filter ?K ls"
    by simp
  then have k: "filter ?K pre' = filter ?K ls"
    by (simp add: pre'_def filter_blank_separated strip_Nil is_export_line_aws_export)
  from bash_loop_exports [of dp ls "[]" False 0] l
  have "filter is_export_line pre = (if added then [aws_export dp] else [])"
    by auto
  then have e: "filter is_export_line pre' = [aws_export dp]"
    by (simp add: pre'_def filter_blank_separated not_export_Nil is_export_line_aws_export)
  have "contains (join newline pre') clear_aws_alias \<longleftrightarrow>
        (\<exists>l \<in> set pre'. contains l clear_aws_alias)"
  proof (rule contains_join_iff)
    show "newline \<notin> set clear_aws_alias"
      by (rule newline_free_directives(1))
    show "clear_aws_alias \<noteq> []"
      by (simp add: clear_aws_alias_def)
  qed
  also have "\<dots> \<longleftrightarrow> (\<exists>l \<in> set (filter ?K pre'). contains l clear_aws_alias) \<or>
                   (\<exists>l \<in> set (filter is_export_line pre'). contains l clear_aws_alias)"
    using alias_line_not_blank by auto
  also have "\<dots> \<longleftrightarrow> list_ex (\<lambda>l. ?K l \<and> contains l clear_aws_alias) ls \<or>
                   contains (aws_export dp) clear_aws_alias"
    unfolding k e by (auto simp: list_ex_iff)
  finally have c: "contains (join newline pre') clear_aws_alias \<longleftrightarrow>
      list_ex (\<lambda>l. ?K l \<and> contains l clear_aws_alias) ls \<or>
      contains (aws_export dp) clear_aws_alias" .
  show ?thesis
    unfolding out using c k by (simp add: not_blank_alias not_export_alias)
qed

lemma powershell_loop_kept:
  "filter (\<lambda>l. strip l \<noteq> [] \<and> \<not> is_env_line l)
     (fst (powershell_loop dp ls new added ca b)) =
   filter (\<lambda>l. strip l \<noteq> [] \<and> \<not> is_env_line l) new @
   filter (\<lambda>l. strip l \<noteq> [] \<and> \<not> is_env_line l) ls"
  by (induction ls arbitrary: new added ca b) (simp_all add: is_env_line_aws_env)

lemma kept_clear_aws_function:
  "filter (\<lambda>l. strip l \<noteq> [] \<and> \<not> is_env_line l) clear_aws_function =
     [''function Clear-AWS {'',
      ''    Remove-Item Env:AWS_ACCESS_KEY_ID,Env:AWS_SECRET_ACCESS_KEY,Env:AWS_SESSION_TOKEN -ErrorAction SilentlyContinue'',
      ''    Write-Host '' @ [CHR 0x22] @
        ''Cleared AWS environment variables and set default profile'' @ [CHR 0x22],
      ''}'']"
  by code_simp

lemma powershell_new_lines_exact:
  "filter is_env_line (powershell_new_lines dp ls) =
     aws_env dp #
     (if list_ex (\<lambda>l. \<not> is_env_line l \<and> is_function_line l) ls then []
      else [''    $env:AWS_DEFAULT_PROFILE = 'default'' @ [CHR 0x27]]) \<and>
   filter (\<lambda>l. strip l \<noteq> [] \<and> \<not> is_env_line l) (powershell_new_lines dp ls) =
     filter (\<lambda>l. strip l \<noteq> [] \<and> \<not> is_env_line l) ls @
     (if list_ex (\<lambda>l. \<not> is_env_line l \<and> is_function_line l) ls then []
      else [''function Clear-AWS {'',
            ''    Remove-Item Env:AWS_ACCESS_KEY_ID,Env:AWS_SECRET_ACCESS_KEY,Env:AWS_SESSION_TOKEN -ErrorAction SilentlyContinue'',
            ''    Write-Host '' @ [CHR 0x22] @
              ''Cleared AWS environment variables and set default profile'' @ [CHR 0x22],
            ''}''])"
proof -
  let ?K = "\<lambda>l. strip l \<noteq> [] \<and> \<not> is_env_line l"
  obtain pre added ca where l: "powershell_loop dp ls [] False False 0 = (pre, added, ca)"
    by (cases "powershell_loop dp ls [] False False 0") auto
  from powershell_loop_clear_aws_added [of dp ls "[]" False False 0] l
  have ca: "ca = list_ex (\<lambda>l. \<not> is_env_line l \<and> is_function_line l) ls"
    by (simp add: list_ex_iff)
  from powershell_loop_envs [of dp ls "[]" False False 0] l
  have f: "filter is_env_line pre = (if added then [aws_env dp] else [])"
    by auto
  from powershell_loop_kept [of dp ls "[]" False False 0] l
  have k: "filter ?K pre = filter ?K ls"
    by simp
  have 1: "filter is_env_line (powershell_new_lines dp ls) =
        aws_env dp # (if ca then [] else filter is_env_line clear_aws_function)"
    by (simp add: powershell_new_lines_unfold [OF l] f filter_blank_separated not_env_Nil
        is_env_line_aws_env)
  have 2: "filter ?K (powershell_new_lines dp ls) =
        filter ?K ls @ (if ca then [] else filter ?K clear_aws_function)"
    by (simp add: powershell_new_lines_unfold [OF l] k filter_blank_separated strip_Nil
        is_env_line_aws_env)
  show ?thesis
    unfolding 1 2 ca [symmetric]
    by (simp add: filter_env_clear_aws_function kept_clear_aws_function)
qed


text \<open>
  Claim C3, as the code has it. After a merge of any profile text:
  \<^item> the Bash profile has exactly one line that passes the test for the export line, the
    canonical one; in the PowerShell profile the lines that mention
    \<open>$env:AWS_DEFAULT_PROFILE\<close> are the canonical assignment, once, and after it the
    line of the function block that the merge has appended, if it has appended one. So
    every assignment of the input is replaced or removed.
  \<^item> every line of the input that is not blank and does not pass the adapter's test for
    the assignment is kept, in order: the merge removes no helper that is already there,
    however many there are, and it keeps no helper line that passes the test for the
    assignment.
  \<^item> the merge appends the helper at most once, after all the kept lines: Bash appends
    the alias unless a kept line or the export line contains the alias text, PowerShell
    appends the function block unless a kept line contains \<open>function Clear-AWS\<close>
    (a comment with these words is enough).
  \<^item> afterwards the Bash text contains the alias text and the PowerShell text has a
    line that contains \<open>function Clear-AWS\<close>.
\<close>

theorem merge_keeps_one_assignment:
  assumes "newline \<notin> set default_profile"
  shows
    "filter is_export_line (content_lines (setup_bash_profile default_profile bashrc_file)) =
       [aws_export default_profile] \<and>
     filter is_env_line
         (content_lines (setup_powershell_profile default_profile ps_profile_file)) =
       aws_env default_profile #
       (if list_ex (\<lambda>l. \<not> is_env_line l \<and> is_function_line l)
             (content_lines (read_content ps_profile_file))
        then []
        else [''    $env:AWS_DEFAULT_PROFILE = 'default'' @ [CHR 0x27]]) \<and>
     filter (\<lambda>l. strip l \<noteq> [] \<and> \<not> is_export_line l)
         (content_lines (setup_bash_profile default_profile bashrc_file)) =
       filter (\<lambda>l. strip l \<noteq> [] \<and> \<not> is_export_line l)
         (content_lines (read_content bashrc_file)) @
       (if list_ex (\<lambda>l. strip l \<noteq> [] \<and> \<not> is_export_line l \<and> contains l clear_aws_alias)
             (content_lines (read_content bashrc_file)) \<or>
           contains (aws_export default_profile) clear_aws_alias
        then []
        else [clear_aws_alias]) \<and>
     filter (\<lambda>l. strip l \<noteq> [] \<and> \<not> is_env_line l)
         (content_lines (setup_powershell_profile default_profile ps_profile_file)) =
       filter (\<lambda>l. strip l \<noteq> [] \<and> \<not> is_env_line l)
         (content_lines (read_content ps_profile_file)) @
       (if list_ex (\<lambda>l. \<not> is_env_line l \<and> is_function_line l)
             (content_lines (read_content ps_profile_file))
        then []
        else [''function Clear-AWS {'',
              ''    Remove-Item Env:AWS_ACCESS_KEY_ID,Env:AWS_SECRET_ACCESS_KEY,Env:AWS_SESSION_TOKEN -ErrorAction SilentlyContinue'',
              ''    Write-Host '' @ [CHR 0x22] @
                ''Cleared AWS environment variables and set default profile'' @ [CHR 0x22],
              ''}'']) \<and>
     contains (setup_bash_profile default_profile bashrc_file) clear_aws_alias \<and>
     list_ex is_function_line
       (content_lines (setup_powershell_profile default_profile ps_profile_file))"
proof -
  note b = content_lines_setup_bash_profile [OF assms, of bashrc_file]
  note p = content_lines_setup_powershell_profile [OF assms, of ps_profile_file]
  have a: "contains (setup_bash_profile default_profile bashrc_file) clear_aws_alias"
    using bash_new_lines_alias [of default_profile "content_lines (read_content bashrc_file)"]
    by (simp add: setup_bash_profile_def)
  have f: "list_ex is_function_line
       (powershell_new_lines default_profile (content_lines (read_content ps_profile_file)))"
    using powershell_new_lines_function
        [of default_profile "content_lines (read_content ps_profile_file)"]
    by simp
  show ?thesis
    unfolding b p
    using a f
      bash_new_lines_exports [of default_profile "content_lines (read_content bashrc_file)"]
      bash_new_lines_kept [of default_profile "content_lines (read_content bashrc_file)"]
      powershell_new_lines_exact
        [of default_profile "content_lines (read_content ps_profile_file)"]
    by blast
qed

theorem merge_keeps_one_assignment_witness:
  "newline \<notin> set ''default'' \<and>
   filter is_export_line
     (content_lines (setup_bash_profile ''default''
        (Some (''export AWS_DEFAULT_PROFILE=dev'' @ [newline] @
               ''export AWS_DEFAULT_PROFILE=prod'' @ [newline] @ ''echo hi'')))) =
     [''export AWS_DEFAULT_PROFILE=default''] \<and>
   filter (\<lambda>l. strip l \<noteq> [] \<and> \<not> is_export_line l)
     (content_lines (setup_bash_profile ''default''
        (Some (''export AWS_DEFAULT_PROFILE=dev'' @ [newline] @
               ''export AWS_DEFAULT_PROFILE=prod'' @ [newline] @ ''echo hi'')))) =
     [''echo hi'', clear_aws_alias] \<and>
   filter is_env_line
     (content_lines (setup_powershell_profile ''default''
        (Some (''$env:AWS_DEFAULT_PROFILE = 1'' @ [newline] @
               ''# function Clear-AWS is defined elsewhere'' @ [newline] @
               ''$env:AWS_DEFAULT_PROFILE = 2'')))) =
     [''$env:AWS_DEFAULT_PROFILE = 'default'' @ [CHR 0x27]] \<and>
   filter (\<lambda>l. strip l \<noteq> [] \<and> \<not> is_env_line l)
     (content_lines (setup_powershell_profile ''default''
        (Some (''$env:AWS_DEFAULT_PROFILE = 1'' @ [newline] @
               ''# function Clear-AWS is defined elsewhere'' @ [newline] @
               ''$env:AWS_DEFAULT_PROFILE = 2'')))) =
     [''# function Clear-AWS is defined elsewhere'']"
proof -
  let ?b = "Some (''export AWS_DEFAULT_PROFILE=dev'' @ [newline] @
               ''export AWS_DEFAULT_PROFILE=prod'' @ [newline] @ ''echo hi'')"
  let ?p = "Some (''$env:AWS_DEFAULT_PROFILE = 1'' @ [newline] @
               ''# function Clear-AWS is defined elsewhere'' @ [newline] @
               ''$env:AWS_DEFAULT_PROFILE = 2'')"
  have h: "newline \<notin> set ''default''"
    by (simp add: newline_def)
  have c1: "list_ex (\<lambda>l. \<not> is_env_line l \<and> is_function_line l)
              (content_lines (read_content ?p)) = True"
    by code_simp
  have c2: "filter (\<lambda>l. strip l \<noteq> [] \<and> \<not> is_env_line l) (content_lines (read_content ?p)) =
            [''# function Clear-AWS is defined elsewhere'']"
    by code_simp
  have c3: "(list_ex (\<lambda>l. strip l \<noteq> [] \<and> \<not> is_export_line l \<and> contains l clear_aws_alias)
               (content_lines (read_content ?b)) \<or>
             contains (aws_export ''default'') clear_aws_alias) = False"
    by code_simp
  have c4: "filter (\<lambda>l. strip l \<noteq> [] \<and> \<not> is_export_line l) (content_lines (read_content ?b)) =
            [''echo hi'']"
    by code_simp
  from merge_keeps_one_assignment [OF h, of ?b ?p] show ?thesis
    unfolding c1 c2 c3 c4 using h by (simp add: aws_export_def aws_env_def)
qed

text \<open>
  Claim C3, as the specification states it, fails: a Bash profile that holds the alias
  twice holds it twice after the merge.
\<close>

theorem helper_duplicates_counterexample:
  "content_lines (setup_bash_profile ''default''
     (Some (clear_aws_alias @ [newline] @ clear_aws_alias))) =
   [clear_aws_alias, clear_aws_alias, [], ''export AWS_DEFAULT_PROFILE=default'']"
  by code_simp

text \<open>
  Claim C1 on the code. With no PowerShell profile, the first run writes seven lines and
  the second run, reading them, writes six: the line of the function block that assigns
  \<open>$env:AWS_DEFAULT_PROFILE\<close> passes the test of line 439 and is dropped. In the Bash
  profile, a second export line that stands between two blank lines is dropped by the
  first run, which leaves the two blank lines next to each other; the second run drops
  one of them.
\<close>

theorem second_run_differs:
  "content_lines (setup_powershell_profile ''default'' None) =
     [''$env:AWS_DEFAULT_PROFILE = 'default'' @ [CHR 0x27],
      [],
      ''function Clear-AWS {'',
      ''    Remove-Item Env:AWS_ACCESS_KEY_ID,Env:AWS_SECRET_ACCESS_KEY,Env:AWS_SESSION_TOKEN -ErrorAction SilentlyContinue'',
      ''    $env:AWS_DEFAULT_PROFILE = 'default'' @ [CHR 0x27],
      ''    Write-Host '' @ [CHR 0x22] @
        ''Cleared AWS environment variables and set default profile'' @ [CHR 0x22],
      ''}''] \<and>
   content_lines (setup_powershell_profile ''default''
       (Some (setup_powershell_profile ''default'' None))) =
     [''$env:AWS_DEFAULT_PROFILE = 'default'' @ [CHR 0x27],
      [],
      ''function Clear-AWS {'',
      ''    Remove-Item Env:AWS_ACCESS_KEY_ID,Env:AWS_SECRET_ACCESS_KEY,Env:AWS_SESSION_TOKEN -ErrorAction SilentlyContinue'',
      ''    Write-Host '' @ [CHR 0x22] @
        ''Cleared AWS environment variables and set default profile'' @ [CHR 0x22],
      ''}''] \<and>
   content_lines (setup_bash_profile ''default''
       (Some (''export AWS_DEFAULT_PROFILE=a'' @ [newline] @ [newline] @
              ''export AWS_DEFAULT_PROFILE=b'' @ [newline] @ [newline] @ ''echo hi''))) =
     [''export AWS_DEFAULT_PROFILE=default'', [], [], ''echo hi'', clear_aws_alias] \<and>
   content_lines (setup_bash_profile ''default''
       (Some (setup_bash_profile ''default''
          (Some (''export AWS_DEFAULT_PROFILE=a'' @ [newline] @ [newline] @
                 ''export AWS_DEFAULT_PROFILE=b'' @ [newline] @ [newline] @ ''echo hi''))))) =
     [''export AWS_DEFAULT_PROFILE=default'', [], ''echo hi'', clear_aws_alias]"
  by code_simp

text \<open>
  Claim C7 on the code. For a Bash profile \<open>echo hi\<close> the alias is appended right after
  the export line, with no blank line before it; the PowerShell merge of the same text
  puts a blank line before the function block.
\<close>

theorem bash_alias_not_separated:
  "content_lines (setup_bash_profile ''default'' (Some ''echo hi'')) =
     [''echo hi'', [], ''export AWS_DEFAULT_PROFILE=default'', clear_aws_alias] \<and>
   content_lines (setup_powershell_profile ''default'' (Some ''echo hi'')) =
     [''echo hi'', [], ''$env:AWS_DEFAULT_PROFILE = 'default'' @ [CHR 0x27], []] @
     clear_aws_function"
  by code_simp

lemma powershell_new_lines_envs:
  "set (filter is_env_line (powershell_new_lines dp ls)) \<subseteq>
     {aws_env dp, ''    $env:AWS_DEFAULT_PROFILE = 'default'' @ [CHR 0x27]}"
proof -
  obtain pre added ca where l: "powershell_loop dp ls [] False False 0 = (pre, added, ca)"
    by (cases "powershell_loop dp ls [] False False 0") auto
  from powershell_loop_envs [of dp ls "[]" False False 0] l
  have f: "filter is_env_line pre = (if added then [aws_env dp] else [])"
    by auto
  have "filter is_env_line (powershell_new_lines dp ls) =
        aws_env dp # (if ca then [] else filter is_env_line clear_aws_function)"
    by (simp add: powershell_new_lines_unfold [OF l] f filter_blank_separated not_env_Nil
        is_env_line_aws_env)
  then show ?thesis
    by (simp add: filter_env_clear_aws_function)
qed

text \<open>
  Claim C10. With no profile names \<open>setup_global_profile\<close> changes nothing. Otherwise,
  whatever the names are, the Bash profile gets the one export line
  \<open>export AWS_DEFAULT_PROFILE=default\<close>, the PowerShell profile gets the one
  assignment of \<open>'default'\<close> (every line of it that mentions the variable assigns
  \<open>'default'\<close>), and the registry value, where there is a registry, is \<open>default\<close>.
\<close>

theorem global_profile_is_default:
  "(profile_names = [] \<longrightarrow> setup_global_profile profile_names sh = sh) \<and>
   (profile_names \<noteq> [] \<longrightarrow>
      (\<exists>bash ps.
         bashrc (setup_global_profile profile_names sh) = Some bash \<and>
         filter is_export_line (content_lines bash) = [''export AWS_DEFAULT_PROFILE=default''] \<and>
         ps_profile (setup_global_profile profile_names sh) = Some ps \<and>
         count_list (content_lines ps) (''$env:AWS_DEFAULT_PROFILE = 'default'' @ [CHR 0x27]) = 1 \<and>
         set (filter is_env_line (content_lines ps)) \<subseteq>
           {''$env:AWS_DEFAULT_PROFILE = 'default'' @ [CHR 0x27],
            ''    $env:AWS_DEFAULT_PROFILE = 'default'' @ [CHR 0x27]}) \<and>
      environment_key (setup_global_profile profile_names sh) =
        (case environment_key sh of
           None \<Rightarrow> None
         | Some vals \<Rightarrow> Some (vals(''AWS_DEFAULT_PROFILE'' \<mapsto> ''default''))) \<and>
      (\<forall>other_names. other_names \<noteq> [] \<longrightarrow>
         setup_global_profile other_names sh = setup_global_profile profile_names sh))"
proof -
  have h: "newline \<notin> set ''default''"
    by (simp add: newline_def)
  have b: "filter is_export_line (content_lines (setup_bash_profile ''default'' (bashrc sh))) =
           [''export AWS_DEFAULT_PROFILE=default'']"
    using bash_new_lines_exports [of "''default''" "content_lines (read_content (bashrc sh))"]
    by (simp add: content_lines_setup_bash_profile [OF h] aws_export_def)
  have p: "count_list (content_lines (setup_powershell_profile ''default'' (ps_profile sh)))
             (''$env:AWS_DEFAULT_PROFILE = 'default'' @ [CHR 0x27]) = 1"
    using powershell_new_lines_env [of "''default''" "content_lines (read_content (ps_profile sh))"]
    by (simp add: content_lines_setup_powershell_profile [OF h] aws_env_def)
  have q: "set (filter is_env_line
                (content_lines (setup_powershell_profile ''default'' (ps_profile sh)))) \<subseteq>
           {''$env:AWS_DEFAULT_PROFILE = 'default'' @ [CHR 0x27],
            ''    $env:AWS_DEFAULT_PROFILE = 'default'' @ [CHR 0x27]}"
    using powershell_new_lines_envs [of "''default''" "content_lines (read_content (ps_profile sh))"]
    by (simp add: content_lines_setup_powershell_profile [OF h] aws_env_def)
  show ?thesis
    using b p q by (simp add: setup_global_profile_def Let_def setup_cmd_profile_def)
qed

theorem global_profile_is_default_witness:
  "setup_global_profile []
     \<lparr>bashrc = Some ''export AWS_DEFAULT_PROFILE=sso-111111111111-Admin'', ps_profile = None,
      environment_key = Some Map.empty\<rparr> =
     \<lparr>bashrc = Some ''export AWS_DEFAULT_PROFILE=sso-111111111111-Admin'', ps_profile = None,
      environment_key = Some Map.empty\<rparr> \<and>
   [''sso-111111111111-Admin''] \<noteq> [] \<and>
   bashrc (setup_global_profile [''sso-111111111111-Admin'']
     \<lparr>bashrc = Some ''export AWS_DEFAULT_PROFILE=sso-111111111111-Admin'', ps_profile = None,
      environment_key = Some Map.empty\<rparr>) =
     Some (''export AWS_DEFAULT_PROFILE=default'' @ [newline] @ clear_aws_alias) \<and>
   environment_key (setup_global_profile [''sso-111111111111-Admin'']
     \<lparr>bashrc = Some ''export AWS_DEFAULT_PROFILE=sso-111111111111-Admin'', ps_profile = None,
      environment_key = Some Map.empty\<rparr>) =
     Some [''AWS_DEFAULT_PROFILE'' \<mapsto> ''default'']"
  (is "?unchanged \<and> ?ne \<and> ?bash \<and> ?env")
proof -
  let ?sh = "\<lparr>bashrc = Some ''export AWS_DEFAULT_PROFILE=sso-111111111111-Admin'',
              ps_profile = None, environment_key = Some Map.empty\<rparr>"
  from global_profile_is_default [of "[]" ?sh] have u: ?unchanged
    by simp
  have ne: ?ne
    by simp
  from global_profile_is_default [of "[''sso-111111111111-Admin'']" ?sh] ne
  have "environment_key (setup_global_profile [''sso-111111111111-Admin''] ?sh) =
        (case environment_key ?sh of
           None \<Rightarrow> None
         | Some vals \<Rightarrow> Some (vals(''AWS_DEFAULT_PROFILE'' \<mapsto> ''default'')))"
    by blast
  then have e: ?env
    by simp
  have "setup_bash_profile ''default'' (Some ''export AWS_DEFAULT_PROFILE=sso-111111111111-Admin'') =
        ''export AWS_DEFAULT_PROFILE=default'' @ [newline] @ clear_aws_alias"
    by code_simp
  then have ?bash
    by (simp add: setup_global_profile_def Let_def)
  with u e show ?thesis
    by simp
qed

end
